theory Spec2Isabelle
  imports Main "HOL-Library.Word"
begin

section \<open>Python values\<close>

text \<open>
  A \<^verbatim>\<open>bytes\<close> object is a list of 8-bit characters; a Python \<^verbatim>\<open>str\<close> is a list of
  Unicode code points. \<open>lit\<close> turns an ASCII literal of the source into a \<^verbatim>\<open>str\<close>.
\<close>

type_synonym bytes = "char list"
type_synonym str = "nat list"

definition lit :: "string \<Rightarrow> str" where
  "lit s = map of_char s"

text \<open>
  The values \<^verbatim>\<open>json.loads\<close> and \<^verbatim>\<open>response.json()\<close> produce. A float is its IEEE-754
  binary64 bit pattern; a dict is an association list read from the left. Python's
  \<^verbatim>\<open>None\<close> is \<open>JNull\<close>.
\<close>

datatype json =
    JNull
  | JBool bool
  | JInt int
  | JFloat "64 word"
  | JStr str
  | JList "json list"
  | JObj "(str \<times> json) list"

text \<open>The exception classes the two modules raise or handle.\<close>

datatype error =
    RequestException
  | HTTPError
  | JSONDecodeError
  | UnicodeDecodeError
  | AttributeError
  | TypeError
  | OtherException

text \<open>\<^verbatim>\<open>except requests.RequestException\<close>: \<^verbatim>\<open>HTTPError\<close> is a subclass.\<close>

fun is_RequestException :: "error \<Rightarrow> bool" where
  "is_RequestException RequestException = True"
| "is_RequestException HTTPError = True"
| "is_RequestException JSONDecodeError = False"
| "is_RequestException UnicodeDecodeError = False"
| "is_RequestException AttributeError = False"
| "is_RequestException TypeError = False"
| "is_RequestException OtherException = False"

text \<open>Truth value testing (\<^verbatim>\<open>if answer:\<close>, \<^verbatim>\<open>inputs or {}\<close>).\<close>

fun truthy :: "json \<Rightarrow> bool" where
  "truthy JNull = False"
| "truthy (JBool b) = b"
| "truthy (JInt i) = (i \<noteq> 0)"
| "truthy (JFloat w) = (w \<noteq> 0 \<and> w \<noteq> 0x8000000000000000)"
| "truthy (JStr s) = (s \<noteq> [])"
| "truthy (JList xs) = (xs \<noteq> [])"
| "truthy (JObj d) = (d \<noteq> [])"

text \<open>\<^verbatim>\<open>d.get(key)\<close> and \<^verbatim>\<open>d.get(key, default)\<close> on a dict.\<close>

definition dict_get :: "(str \<times> json) list \<Rightarrow> string \<Rightarrow> json" where
  "dict_get d k = (case map_of d (lit k) of None \<Rightarrow> JNull | Some v \<Rightarrow> v)"

definition dict_get_default :: "(str \<times> json) list \<Rightarrow> string \<Rightarrow> json \<Rightarrow> json" where
  "dict_get_default d k dflt = (case map_of d (lit k) of None \<Rightarrow> dflt | Some v \<Rightarrow> v)"

section \<open>Text primitives used by the decoder\<close>

subsection \<open>\<^verbatim>\<open>bytes.decode("utf-8")\<close>\<close>

text \<open>
  Strict UTF-8: a lead byte fixes the number of continuation bytes; overlong forms,
  surrogates and code points above U+10FFFF are rejected through the bounds on the first
  continuation byte.
\<close>

definition lead_lo :: "nat \<Rightarrow> nat" where
  "lead_lo b = (if b = 224 then 160 else if b = 240 then 144 else 128)"

definition lead_hi :: "nat \<Rightarrow> nat" where
  "lead_hi b = (if b = 237 then 160 else if b = 244 then 144 else 192)"

definition is_cont :: "nat \<Rightarrow> bool" where
  "is_cont c \<longleftrightarrow> 128 \<le> c \<and> c < 192"

text \<open>One code point: its value and how many continuation bytes it took.\<close>

definition utf8_char :: "nat \<Rightarrow> nat list \<Rightarrow> (nat \<times> nat) option" where
  "utf8_char b bs =
     (if b < 128 then Some (b, 0)
      else if 194 \<le> b \<and> b < 224 then
        (case bs of
           c1 # r \<Rightarrow>
             if is_cont c1 then Some ((b - 192) * 64 + (c1 - 128), 1) else None
         | _ \<Rightarrow> None)
      else if 224 \<le> b \<and> b < 240 then
        (case bs of
           c1 # c2 # r \<Rightarrow>
             if lead_lo b \<le> c1 \<and> c1 < lead_hi b \<and> is_cont c2
             then Some ((b - 224) * 4096 + (c1 - 128) * 64 + (c2 - 128), 2)
             else None
         | _ \<Rightarrow> None)
      else if 240 \<le> b \<and> b < 245 then
        (case bs of
           c1 # c2 # c3 # r \<Rightarrow>
             if lead_lo b \<le> c1 \<and> c1 < lead_hi b \<and> is_cont c2 \<and> is_cont c3
             then Some ((b - 240) * 262144 + (c1 - 128) * 4096 + (c2 - 128) * 64 + (c3 - 128), 3)
             else None
         | _ \<Rightarrow> None)
      else None)"

fun utf8 :: "nat list \<Rightarrow> str option" where
  "utf8 [] = Some []"
| "utf8 (b # bs) =
     (case utf8_char b bs of
        None \<Rightarrow> None
      | Some (cp, k) \<Rightarrow> map_option ((#) cp) (utf8 (drop k bs)))"

definition decode :: "bytes \<Rightarrow> error + str" where
  "decode bs = (case utf8 (map of_char bs) of None \<Rightarrow> Inl UnicodeDecodeError | Some s \<Rightarrow> Inr s)"

subsection \<open>\<^verbatim>\<open>str.strip()\<close>, \<^verbatim>\<open>str.startswith\<close>\<close>

text \<open>The code points for which \<^verbatim>\<open>str.isspace\<close> holds.\<close>

definition isspace :: "nat \<Rightarrow> bool" where
  "isspace c \<longleftrightarrow>
     (9 \<le> c \<and> c \<le> 13) \<or> (28 \<le> c \<and> c \<le> 32) \<or> c = 133 \<or> c = 160 \<or> c = 5760 \<or>
     (8192 \<le> c \<and> c \<le> 8202) \<or> c = 8232 \<or> c = 8233 \<or> c = 8239 \<or> c = 8287 \<or> c = 12288"

definition strip :: "str \<Rightarrow> str" where
  "strip s = rev (dropWhile isspace (rev (dropWhile isspace s)))"

definition startswith :: "str \<Rightarrow> string \<Rightarrow> bool" where
  "startswith s p \<longleftrightarrow> take (length p) s = lit p"

section \<open>The streaming decoder of \<^verbatim>\<open>chat_query_streaming\<close>\<close>

text \<open>
  What a run of the generator lets its environment observe, in order: a call of the
  \<^verbatim>\<open>on_message\<close> callback, a yielded event, a \<^verbatim>\<open>logging.error\<close> record. Debug output
  on stdout, the event counter and the timestamps feed nothing but \<^verbatim>\<open>print\<close> and are
  left out; the exceptions the debug branch can raise are kept.
\<close>

datatype action = Callback json | Yield json | LogError string

text \<open>
  \<^verbatim>\<open>json.loads\<close> is the standard library's: it is a parameter \<open>loads\<close>, \<open>None\<close> standing
  for \<^verbatim>\<open>json.JSONDecodeError\<close>. The callback is \<open>None\<close> or a function that returns
  (\<open>None\<close>) or raises (\<open>Some e\<close>).
\<close>

type_synonym loads = "str \<Rightarrow> json option"
type_synonym on_message = "(json \<Rightarrow> error option) option"

definition newline :: char where
  "newline = CHR 0x0A"

text \<open>Lines 149-156: the debug report reads \<^verbatim>\<open>data.get\<close> and \<^verbatim>\<open>len(answer)\<close>.\<close>

definition debug_event :: "bool \<Rightarrow> json \<Rightarrow> error option" where
  "debug_event debug data =
     (if debug then
        (case data of
           JObj d \<Rightarrow>
             (case dict_get_default d ''answer'' (JStr []) of
                JStr s \<Rightarrow> None
              | JList xs \<Rightarrow> None
              | JObj a \<Rightarrow> None
              | _ \<Rightarrow> Some TypeError)
         | _ \<Rightarrow> Some AttributeError)
      else None)"

text \<open>Lines 158-160 and 173-175: the callback, then the yield.\<close>

definition emit :: "on_message \<Rightarrow> json \<Rightarrow> action list \<times> error option" where
  "emit on_message data =
     (case on_message of
        None \<Rightarrow> ([Yield data], None)
      | Some cb \<Rightarrow>
          (case cb data of
             Some e \<Rightarrow> ([Callback data], Some e)
           | None \<Rightarrow> ([Callback data, Yield data], None)))"

text \<open>
  Lines 133-165, the body of the \<^verbatim>\<open>while\<close> loop for one assembled line. The result is
  what was observed and the exception that leaves the loop, if any; every
  \<^verbatim>\<open>continue\<close> is \<open>([], None)\<close>. The handler of line 162 catches a
  \<^verbatim>\<open>JSONDecodeError\<close> raised anywhere in its \<^verbatim>\<open>try\<close> block.
\<close>

definition line_body :: "loads \<Rightarrow> on_message \<Rightarrow> bool \<Rightarrow> bytes \<Rightarrow> action list \<times> error option" where
  "line_body loads on_message debug line_bytes =
     (case decode line_bytes of
        Inl e \<Rightarrow> ([], None)
      | Inr s \<Rightarrow>
          (let line = strip s in
           if line = [] then ([], None)
           else if startswith line ''data:'' then
             (let data_str = strip (drop 5 line) in
              case loads data_str of
                None \<Rightarrow> ([], None)
              | Some data \<Rightarrow>
                  (case debug_event debug data of
                     Some e \<Rightarrow> ([], Some e)
                   | None \<Rightarrow>
                       (case emit on_message data of
                          (acts, Some e) \<Rightarrow>
                            if e = JSONDecodeError then (acts, None) else (acts, Some e)
                        | (acts, None) \<Rightarrow> (acts, None))))
           else ([], None)))"

text \<open>
  Lines 130-131: \<^verbatim>\<open>while b"\n" in buffer: line_bytes, buffer = buffer.split(b"\n", 1)\<close>.
  The result is the observations and either the exception or the buffer left.
\<close>

function while_newline ::
  "loads \<Rightarrow> on_message \<Rightarrow> bool \<Rightarrow> bytes \<Rightarrow> action list \<times> (error + bytes)" where
  "while_newline loads on_message debug buffer =
     (if newline \<in> set buffer then
        (case line_body loads on_message debug (takeWhile (\<lambda>c. c \<noteq> newline) buffer) of
           (acts, Some e) \<Rightarrow> (acts, Inl e)
         | (acts, None) \<Rightarrow>
             (case while_newline loads on_message debug
                     (tl (dropWhile (\<lambda>c. c \<noteq> newline) buffer)) of
                (acts', r) \<Rightarrow> (acts @ acts', r)))
      else ([], Inr buffer))"
  by pat_completeness auto

lemma length_after_newline:
  "x \<in> set xs \<Longrightarrow> length (dropWhile (\<lambda>c. c \<noteq> x) xs) - Suc 0 < length xs"
proof -
  assume "x \<in> set xs"
  then have "0 < length xs"
    by (cases xs) auto
  moreover have "length (dropWhile (\<lambda>c. c \<noteq> x) xs) \<le> length xs"
    by (rule length_dropWhile_le)
  ultimately show ?thesis
    by arith
qed

termination while_newline
  by (relation "measure (\<lambda>(l, m, d, buffer). length buffer)")
     (auto simp: length_after_newline)

declare while_newline.simps [simp del]

text \<open>
  Lines 113-128: \<^verbatim>\<open>for chunk in response.iter_content(...)\<close>. An empty chunk is
  skipped; another is appended to the buffer and the \<^verbatim>\<open>while\<close> loop runs. \<open>stop\<close> is
  how the iterator ends: exhausted (\<open>None\<close>) or raising (\<open>Some e\<close>).
\<close>

fun for_chunk ::
  "loads \<Rightarrow> on_message \<Rightarrow> bool \<Rightarrow> error option \<Rightarrow> bytes \<Rightarrow> bytes list \<Rightarrow>
   action list \<times> (error + bytes)" where
  "for_chunk loads on_message debug stop buffer [] =
     (case stop of Some e \<Rightarrow> ([], Inl e) | None \<Rightarrow> ([], Inr buffer))"
| "for_chunk loads on_message debug stop buffer (chunk # chunks) =
     (if chunk = [] then for_chunk loads on_message debug stop buffer chunks
      else
        (case while_newline loads on_message debug (buffer @ chunk) of
           (acts, Inl e) \<Rightarrow> (acts, Inl e)
         | (acts, Inr buffer') \<Rightarrow>
             (case for_chunk loads on_message debug stop buffer' chunks of
                (acts', r) \<Rightarrow> (acts @ acts', r))))"

text \<open>
  Lines 167-177: the fragment left in the buffer. The handler of line 176 catches
  \<^verbatim>\<open>UnicodeDecodeError\<close> and \<^verbatim>\<open>JSONDecodeError\<close> raised anywhere in its \<^verbatim>\<open>try\<close> block.
\<close>

definition trailing :: "loads \<Rightarrow> on_message \<Rightarrow> bytes \<Rightarrow> action list \<times> error option" where
  "trailing loads on_message buffer =
     (if buffer \<noteq> [] then
        (case decode buffer of
           Inl e \<Rightarrow> ([], None)
         | Inr s \<Rightarrow>
             (let line = strip s in
              if startswith line ''data:'' then
                (let data_str = strip (drop 5 line) in
                 case loads data_str of
                   None \<Rightarrow> ([], None)
                 | Some data \<Rightarrow>
                     (case emit on_message data of
                        (acts, Some e) \<Rightarrow>
                          if e = UnicodeDecodeError \<or> e = JSONDecodeError
                          then (acts, None) else (acts, Some e)
                      | (acts, None) \<Rightarrow> (acts, None)))
              else ([], None)))
      else ([], None))"

text \<open>Lines 109-177: the decoder over the chunks of one response body.\<close>

definition decode_stream ::
  "loads \<Rightarrow> on_message \<Rightarrow> bool \<Rightarrow> bytes list \<Rightarrow> error option \<Rightarrow> action list \<times> error option" where
  "decode_stream loads on_message debug chunks stop =
     (case for_chunk loads on_message debug stop [] chunks of
        (acts, Inl e) \<Rightarrow> (acts, Some e)
      | (acts, Inr buffer) \<Rightarrow>
          (case trailing loads on_message buffer of (acts', r) \<Rightarrow> (acts @ acts', r)))"

text \<open>The events a run yields, in order.\<close>

fun yielded :: "action list \<Rightarrow> json list" where
  "yielded [] = []"
| "yielded (Yield v # acts) = v # yielded acts"
| "yielded (Callback v # acts) = yielded acts"
| "yielded (LogError m # acts) = yielded acts"

section \<open>The transport client \<^verbatim>\<open>HiAgentLLMClient\<close>\<close>

text \<open>
  The remote service is a parameter: \<^verbatim>\<open>session.post\<close> answers a request, given the
  requests sent before it, by raising or by a response. A response carries its status,
  what \<^verbatim>\<open>response.json()\<close> does, and what \<^verbatim>\<open>response.iter_content(chunk_size)\<close>
  delivers: the chunks, then exhaustion or an exception. The world records the requests
  sent and the \<^verbatim>\<open>logging.error\<close> records written.
\<close>

record request =
  url :: string
  payload :: json

record response =
  status_code :: nat
  json_body :: "error + json"
  iter_content :: "int \<Rightarrow> bytes list \<times> error option"

type_synonym server = "request list \<Rightarrow> request \<Rightarrow> error + response"

record world =
  requests :: "request list"
  error_log :: "string list"

text \<open>
  The two attributes are annotated in the class body and assigned by
  \<^verbatim>\<open>create_conversation\<close> only: \<open>None\<close> is an attribute not set yet.
\<close>

record HiAgentLLMClient =
  api_url :: string
  api_key :: json
  user_agent :: string
  app_conversation_id :: "json option"
  user_id :: "str option"

definition sent :: "request \<Rightarrow> world \<Rightarrow> world" where
  "sent req w = w\<lparr>requests := requests w @ [req]\<rparr>"

text \<open>\<^verbatim>\<open>except requests.RequestException as e: logging.error(...); raise\<close>.\<close>

definition log_reraise :: "string \<Rightarrow> error \<Rightarrow> world \<Rightarrow> world" where
  "log_reraise msg e w =
     (if is_RequestException e then w\<lparr>error_log := error_log w @ [msg]\<rparr> else w)"

text \<open>\<^verbatim>\<open>response.raise_for_status()\<close> raises for a status from 400 to 599.\<close>

definition raise_for_status :: "response \<Rightarrow> bool" where
  "raise_for_status resp \<longleftrightarrow> 400 \<le> status_code resp \<and> status_code resp < 600"

definition create_conversation_request :: "HiAgentLLMClient \<Rightarrow> str \<Rightarrow> json \<Rightarrow> request" where
  "create_conversation_request c uid inputs =
     \<lparr>url = api_url c @ ''/api/proxy/api/v1/create_conversation'',
      payload = JObj [(lit ''AppKey'', api_key c),
                      (lit ''Inputs'', if truthy inputs then inputs else JObj []),
                      (lit ''UserID'', JStr uid)]\<rparr>"

definition create_conversation ::
  "server \<Rightarrow> str \<Rightarrow> json \<Rightarrow> HiAgentLLMClient \<times> world \<Rightarrow>
   (error + json) \<times> HiAgentLLMClient \<times> world" where
  "create_conversation server uid inputs cw =
     (case cw of (c, w) \<Rightarrow>
        (let req = create_conversation_request c uid inputs;
             msg = ''Error creating conversation'' in
         case server (requests w) req of
           Inl e \<Rightarrow> (Inl e, c, log_reraise msg e (sent req w))
         | Inr resp \<Rightarrow>
             if raise_for_status resp
             then (Inl HTTPError, c, log_reraise msg HTTPError (sent req w))
             else
               (case json_body resp of
                  Inl e \<Rightarrow> (Inl e, c, log_reraise msg e (sent req w))
                | Inr body \<Rightarrow>
                    (case body of
                       JObj d \<Rightarrow>
                         (case dict_get d ''Conversation'' of
                            JObj conv \<Rightarrow>
                              (Inr body,
                               c\<lparr>app_conversation_id := Some (dict_get conv ''AppConversationID''),
                                 user_id := Some uid\<rparr>,
                               sent req w)
                          | _ \<Rightarrow> (Inl AttributeError, c, sent req w))
                     | _ \<Rightarrow> (Inl AttributeError, c, sent req w)))))"

text \<open>
  The payload of \<^verbatim>\<open>chat_query_v2\<close> is built before the \<^verbatim>\<open>try\<close>: reading an
  attribute that was never assigned raises \<^verbatim>\<open>AttributeError\<close>.
\<close>

definition chat_query_request ::
  "HiAgentLLMClient \<Rightarrow> str \<Rightarrow> string \<Rightarrow> json \<Rightarrow> error + request" where
  "chat_query_request c query mode query_extends =
     (case app_conversation_id c of
        None \<Rightarrow> Inl AttributeError
      | Some cid \<Rightarrow>
          (case user_id c of
             None \<Rightarrow> Inl AttributeError
           | Some uid \<Rightarrow>
               Inr \<lparr>url = api_url c @ ''/api/proxy/api/v1/chat_query_v2'',
                    payload = JObj [(lit ''Query'', JStr query),
                                    (lit ''AppConversationID'', cid),
                                    (lit ''AppKey'', api_key c),
                                    (lit ''ResponseMode'', JStr (lit mode)),
                                    (lit ''UserID'', JStr uid),
                                    (lit ''QueryExtends'', query_extends)]\<rparr>))"

definition chat_query_blocking ::
  "server \<Rightarrow> str \<Rightarrow> json \<Rightarrow> HiAgentLLMClient \<times> world \<Rightarrow> (error + json) \<times> world" where
  "chat_query_blocking server query query_extends cw =
     (case cw of (c, w) \<Rightarrow>
        (case chat_query_request c query ''blocking'' query_extends of
           Inl e \<Rightarrow> (Inl e, w)
         | Inr req \<Rightarrow>
             (let msg = ''Error during chat query'' in
              case server (requests w) req of
                Inl e \<Rightarrow> (Inl e, log_reraise msg e (sent req w))
              | Inr resp \<Rightarrow>
                  if raise_for_status resp
                  then (Inl HTTPError, log_reraise msg HTTPError (sent req w))
                  else
                    (case json_body resp of
                       Inl e \<Rightarrow> (Inl e, log_reraise msg e (sent req w))
                     | Inr body \<Rightarrow> (Inr body, sent req w)))))"

text \<open>
  The outer handler of the generator (lines 186-188): a \<^verbatim>\<open>RequestException\<close> that
  reaches it is logged and raised again.
\<close>

definition logged :: "string \<Rightarrow> action list \<times> error option \<Rightarrow> action list \<times> error option" where
  "logged msg run =
     (case run of
        (acts, Some e) \<Rightarrow>
          if is_RequestException e then (acts @ [LogError msg], Some e) else (acts, Some e)
      | (acts, None) \<Rightarrow> (acts, None))"

text \<open>
  \<^verbatim>\<open>chat_query_streaming\<close> is a generator. Its run is the list of what it lets observe
  and how it ends; the world returned is the one after the request was sent, and a
  \<open>LogError\<close> of the run is written when the consumer gets that far.
\<close>

definition chat_query_streaming ::
  "server \<Rightarrow> loads \<Rightarrow> str \<Rightarrow> json \<Rightarrow> on_message \<Rightarrow> int \<Rightarrow> bool \<Rightarrow>
   HiAgentLLMClient \<times> world \<Rightarrow> (action list \<times> error option) \<times> world" where
  "chat_query_streaming server loads query query_extends on_message chunk_size debug cw =
     (case cw of (c, w) \<Rightarrow>
        (case chat_query_request c query ''streaming'' query_extends of
           Inl e \<Rightarrow> (([], Some e), w)
         | Inr req \<Rightarrow>
             (logged ''Error during streaming chat query''
                (case server (requests w) req of
                   Inl e \<Rightarrow> ([], Some e)
                 | Inr resp \<Rightarrow>
                     if raise_for_status resp then ([], Some HTTPError)
                     else
                       (case iter_content resp chunk_size of
                          (chunks, stop) \<Rightarrow> decode_stream loads on_message debug chunks stop)),
              sent req w)))"

section \<open>The chat model \<^verbatim>\<open>HiAgentChatLLM\<close>\<close>

text \<open>
  The instance: its client and its three attributes. The attribute \<^verbatim>\<open>user_id\<close> of the
  model is \<open>llm_user_id\<close> here, the client having a field of that name; the flag
  \<^verbatim>\<open>_conversation_created\<close> loses its underscore.
\<close>

record HiAgentChatLLM =
  client :: HiAgentLLMClient
  llm_user_id :: str
  conversation_inputs :: json
  conversation_created :: bool

text \<open>\<^verbatim>\<open>__init__\<close>: \<open>key\<close> is what \<^verbatim>\<open>os.getenv("HIAGENT_APIKEY")\<close> returns.\<close>

definition init :: "json \<Rightarrow> json \<Rightarrow> HiAgentChatLLM" where
  "init key inputs =
     \<lparr>client = \<lparr>api_url = ''https://agent.hust.edu.cn'', api_key = key,
                user_agent = ''GraphRAG/1.0'', app_conversation_id = None, user_id = None\<rparr>,
      llm_user_id = lit ''graphrag_user'',
      conversation_inputs = (if truthy inputs then inputs else JObj []),
      conversation_created = False\<rparr>"

definition ensure_conversation ::
  "server \<Rightarrow> HiAgentChatLLM \<times> world \<Rightarrow> error option \<times> HiAgentChatLLM \<times> world" where
  "ensure_conversation server fw =
     (case fw of (f, w) \<Rightarrow>
        if \<not> conversation_created f then
          (case create_conversation server (llm_user_id f) (conversation_inputs f) (client f, w) of
             (Inl e, c, w') \<Rightarrow> (Some e, f\<lparr>client := c\<rparr>, w')
           | (Inr body, c, w') \<Rightarrow> (None, f\<lparr>client := c, conversation_created := True\<rparr>, w'))
        else (None, f, w))"

text \<open>
  Modelled from the spec: \<^verbatim>\<open>BaseModelOutput\<close> and \<^verbatim>\<open>BaseModelResponse\<close> of
  \<^verbatim>\<open>graphrag.language_model.response.base\<close> are not among the sources; the spec has
  "a response object exposing output text and an optional parsed-structured-value field".
  The field \<^verbatim>\<open>output\<close> is \<open>output'\<close>, the plain name being taken.
\<close>

record BaseModelOutput =
  content :: json

record BaseModelResponse =
  output' :: BaseModelOutput
  parsed_response :: json

text \<open>\<^verbatim>\<open>json.loads(content)\<close> on a value: a \<^verbatim>\<open>TypeError\<close> unless it is a \<^verbatim>\<open>str\<close>.\<close>

definition json_loads :: "loads \<Rightarrow> json \<Rightarrow> error + json" where
  "json_loads loads v =
     (case v of
        JStr s \<Rightarrow> (case loads s of None \<Rightarrow> Inl JSONDecodeError | Some x \<Rightarrow> Inr x)
      | _ \<Rightarrow> Inl TypeError)"

text \<open>
  \<^verbatim>\<open>chat\<close>: \<open>query_extends\<close> is \<^verbatim>\<open>kwargs.get("query_extends")\<close>, \<open>want_json\<close> the truth
  value of \<^verbatim>\<open>kwargs.get("json", False)\<close>; \<^verbatim>\<open>history\<close> is not read.
\<close>

definition chat ::
  "server \<Rightarrow> loads \<Rightarrow> str \<Rightarrow> json \<Rightarrow> bool \<Rightarrow> HiAgentChatLLM \<times> world \<Rightarrow>
   (error + BaseModelResponse) \<times> HiAgentChatLLM \<times> world" where
  "chat server loads prompt query_extends want_json fw =
     (case ensure_conversation server fw of
        (Some e, f, w) \<Rightarrow> (Inl e, f, w)
      | (None, f, w) \<Rightarrow>
          (case chat_query_blocking server prompt query_extends (client f, w) of
             (Inl e, w') \<Rightarrow> (Inl e, f, w')
           | (Inr response, w') \<Rightarrow>
               (case response of
                  JObj d \<Rightarrow>
                    (let content = dict_get_default d ''answer'' (JStr []) in
                     if want_json then
                       (case json_loads loads content of
                          Inr parsed_json \<Rightarrow>
                            (Inr \<lparr>output' = \<lparr>content = content\<rparr>,
                                  parsed_response = parsed_json\<rparr>, f, w')
                        | Inl e \<Rightarrow>
                            if e = JSONDecodeError
                            then (Inr \<lparr>output' = \<lparr>content = content\<rparr>,
                                       parsed_response = JNull\<rparr>, f, w')
                            else (Inl e, f, w'))
                     else (Inr \<lparr>output' = \<lparr>content = content\<rparr>, parsed_response = JNull\<rparr>, f, w'))
                | _ \<Rightarrow> (Inl AttributeError, f, w'))))"

text \<open>\<^verbatim>\<open>achat\<close> hands \<^verbatim>\<open>lambda: self.chat(prompt, history, **kwargs)\<close> to the executor.\<close>

definition achat ::
  "server \<Rightarrow> loads \<Rightarrow> str \<Rightarrow> json \<Rightarrow> bool \<Rightarrow> HiAgentChatLLM \<times> world \<Rightarrow>
   (error + BaseModelResponse) \<times> HiAgentChatLLM \<times> world" where
  "achat server loads prompt query_extends want_json fw =
     chat server loads prompt query_extends want_json fw"

text \<open>
  The loop \<^verbatim>\<open>for data in self.client.chat_query_streaming(...)\<close> over a run of the
  client's generator: what it yields, the exception of its own body if one is raised
  (\<^verbatim>\<open>data.get\<close> on a value that is no dict), and the world, where a \<open>LogError\<close> reached
  is written. When the body raises, the client's generator is not resumed.
\<close>

fun for_data :: "action list \<Rightarrow> world \<Rightarrow> (json list \<times> error option) \<times> world" where
  "for_data [] w = (([], None), w)"
| "for_data (LogError msg # acts) w = for_data acts (w\<lparr>error_log := error_log w @ [msg]\<rparr>)"
| "for_data (Callback v # acts) w = for_data acts w"
| "for_data (Yield data # acts) w =
     (case data of
        JObj d \<Rightarrow>
          if dict_get d ''event'' = JStr (lit ''message'') then
            (let answer = dict_get_default d ''answer'' (JStr []) in
             if truthy answer then
               (case for_data acts w of ((ys, r), w') \<Rightarrow> ((answer # ys, r), w'))
             else for_data acts w)
          else for_data acts w
      | _ \<Rightarrow> (([], Some AttributeError), w))"

text \<open>
  A generator that loops over the client's: it ends as its own body does, or else as
  the client's generator does.
\<close>

definition stream_answers ::
  "(action list \<times> error option) \<times> world \<Rightarrow> (json list \<times> error option) \<times> world" where
  "stream_answers gw =
     (case gw of ((acts, r), w) \<Rightarrow>
        (case for_data acts w of
           ((ys, Some e), w') \<Rightarrow> ((ys, Some e), w')
         | ((ys, None), w') \<Rightarrow> ((ys, r), w')))"

text \<open>
  \<^verbatim>\<open>chat_stream\<close>, run to its end: \<open>chunk_size\<close> is \<^verbatim>\<open>kwargs.get("chunk_size", 1)\<close>.
  The result is what it yields, how it ends, and the state after.
\<close>

definition chat_stream ::
  "server \<Rightarrow> loads \<Rightarrow> str \<Rightarrow> json \<Rightarrow> int \<Rightarrow> HiAgentChatLLM \<times> world \<Rightarrow>
   (json list \<times> error option) \<times> HiAgentChatLLM \<times> world" where
  "chat_stream server loads prompt query_extends chunk_size fw =
     (case ensure_conversation server fw of
        (Some e, f, w) \<Rightarrow> (([], Some e), f, w)
      | (None, f, w) \<Rightarrow>
          (case stream_answers
                  (chat_query_streaming server loads prompt query_extends None chunk_size False
                     (client f, w)) of
             (run, w') \<Rightarrow> (run, f, w')))"

text \<open>
  \<^verbatim>\<open>achat_stream\<close>: the inner \<^verbatim>\<open>stream_generator\<close> is the same loop; the executor runs
  \<^verbatim>\<open>list(stream_generator())\<close>, and only the finished list is yielded from. An exception
  in the executor leaves nothing to yield.
\<close>

definition stream_generator ::
  "server \<Rightarrow> loads \<Rightarrow> str \<Rightarrow> json \<Rightarrow> int \<Rightarrow> HiAgentLLMClient \<times> world \<Rightarrow>
   (json list \<times> error option) \<times> world" where
  "stream_generator server loads prompt query_extends chunk_size cw =
     stream_answers
       (chat_query_streaming server loads prompt query_extends None chunk_size False cw)"

definition achat_stream ::
  "server \<Rightarrow> loads \<Rightarrow> str \<Rightarrow> json \<Rightarrow> int \<Rightarrow> HiAgentChatLLM \<times> world \<Rightarrow>
   (json list \<times> error option) \<times> HiAgentChatLLM \<times> world" where
  "achat_stream server loads prompt query_extends chunk_size fw =
     (case ensure_conversation server fw of
        (Some e, f, w) \<Rightarrow> (([], Some e), f, w)
      | (None, f, w) \<Rightarrow>
          (case stream_generator server loads prompt query_extends chunk_size (client f, w) of
             ((ys, Some e), w') \<Rightarrow> (([], Some e), f, w')
           | ((ys, None), w') \<Rightarrow> ((ys, None), f, w')))"

subsection \<open>Sequences of calls on one instance\<close>

datatype call = Chat str json bool | ChatStream str json int

fun step :: "server \<Rightarrow> loads \<Rightarrow> call \<Rightarrow> HiAgentChatLLM \<times> world \<Rightarrow> HiAgentChatLLM \<times> world" where
  "step server loads (Chat prompt query_extends want_json) fw =
     snd (chat server loads prompt query_extends want_json fw)"
| "step server loads (ChatStream prompt query_extends chunk_size) fw =
     snd (chat_stream server loads prompt query_extends chunk_size fw)"

text \<open>The states after each call of a sequence, a caller going on after an exception.\<close>

fun run :: "server \<Rightarrow> loads \<Rightarrow> call list \<Rightarrow> HiAgentChatLLM \<times> world \<Rightarrow> (HiAgentChatLLM \<times> world) list" where
  "run server loads [] fw = []"
| "run server loads (c # cs) fw = step server loads c fw # run server loads cs (step server loads c fw)"

text \<open>How many of the requests sent went to \<^verbatim>\<open>create_conversation\<close>.\<close>

definition creations :: "HiAgentChatLLM \<times> world \<Rightarrow> nat" where
  "creations fw =
     length (filter (\<lambda>req. url req = api_url (client (fst fw)) @ ''/api/proxy/api/v1/create_conversation'')
               (requests (snd fw)))"

section \<open>Sample data\<close>

text \<open>
  Concrete inputs for the instances below: an event of the message kind, a
  \<^verbatim>\<open>json.loads\<close> cut down to the texts the instances use, and a callback that
  raises \<^verbatim>\<open>json.JSONDecodeError\<close> on the event \<open>5\<close> and returns on every other, one that
  raises an exception of another class there, and one that raises
  \<^verbatim>\<open>UnicodeDecodeError\<close> there.
\<close>

definition hi_event :: json where
  "hi_event = JObj [(lit ''event'', JStr (lit ''message'')), (lit ''answer'', JStr (lit ''hi''))]"

definition sample_loads :: loads where
  \<open>sample_loads s =
     (if s = lit ''{"event": "message", "answer": "hi"}'' then Some hi_event
      else if s = lit ''{"event": "message", "answer": ""}''
        then Some (JObj [(lit ''event'', JStr (lit ''message'')), (lit ''answer'', JStr [])])
      else if s = lit ''{"event": "message_end"}''
        then Some (JObj [(lit ''event'', JStr (lit ''message_end''))])
      else if s = lit ''5'' then Some (JInt 5)
      else if s = lit ''6'' then Some (JInt 6)
      else None)\<close>

definition parsing_callback :: "json \<Rightarrow> error option" where
  "parsing_callback data = (if data = JInt 5 then Some JSONDecodeError else None)"

lemmas decoder_eval =
  lit_def newline_def decode_def utf8_char_def strip_def isspace_def startswith_def
  line_body_def emit_def debug_event_def trailing_def decode_stream_def sample_loads_def
  while_newline.simps hi_event_def parsing_callback_def

definition raising_callback :: "json \<Rightarrow> error option" where
  "raising_callback data = (if data = JInt 5 then Some OtherException else None)"

definition decoding_callback :: "json \<Rightarrow> error option" where
  "decoding_callback data = (if data = JInt 5 then Some UnicodeDecodeError else None)"

text \<open>
  A world in which nothing was sent, three responses of the service, and servers that
  answer the request for a conversation with the first response given and every other
  request with the second. The service of \<open>good_server\<close> creates the conversation and
  streams three events; that of \<open>dropping_server\<close> fails after the first event of the
  stream; that of \<open>careless_server\<close> answers the creation with an empty object.
\<close>

definition fresh_world :: world where
  "fresh_world = \<lparr>requests = [], error_log = []\<rparr>"

definition conversation_response :: response where
  "conversation_response =
     \<lparr>status_code = 200,
      json_body = Inr (JObj [(lit ''Conversation'',
                              JObj [(lit ''AppConversationID'', JStr (lit ''c1''))])]),
      iter_content = (\<lambda>n. ([], None))\<rparr>"

definition empty_response :: response where
  "empty_response =
     \<lparr>status_code = 200, json_body = Inr (JObj []), iter_content = (\<lambda>n. ([], None))\<rparr>"

definition answer_response :: response where
  \<open>answer_response =
     \<lparr>status_code = 200,
      json_body = Inr (JObj [(lit ''answer'', JStr (lit ''hi there''))]),
      iter_content = (\<lambda>n. ([''data: {"event": "message", "answer": "hi"}'' @ [newline],
                              ''data: {"event": "message", "answer": ""}'' @ [newline],
                              ''data: {"event": "message_end"}'' @ [newline]], None))\<rparr>\<close>

definition dropped_response :: response where
  \<open>dropped_response =
     \<lparr>status_code = 200,
      json_body = Inr (JObj [(lit ''answer'', JStr (lit ''hi there''))]),
      iter_content = (\<lambda>n. ([''data: {"event": "message", "answer": "hi"}'' @ [newline]],
                             Some RequestException))\<rparr>\<close>

definition serving :: "response \<Rightarrow> response \<Rightarrow> server" where
  "serving created answered log req =
     (if url req = ''https://agent.hust.edu.cn/api/proxy/api/v1/create_conversation''
      then Inr created else Inr answered)"

definition good_server :: server where
  "good_server = serving conversation_response answer_response"

definition dropping_server :: server where
  "dropping_server = serving conversation_response dropped_response"

definition careless_server :: server where
  "careless_server = serving empty_response answer_response"

definition started :: "HiAgentChatLLM \<times> world" where
  "started = (init JNull JNull, fresh_world)"

definition first_request :: request where
  "first_request =
     create_conversation_request (client (init JNull JNull)) (lit ''graphrag_user'') (JObj [])"

definition ready :: "HiAgentChatLLM \<times> world" where
  "ready =
     ((init JNull JNull)
        \<lparr>client := (client (init JNull JNull))
           \<lparr>app_conversation_id := Some (JStr (lit ''c1'')),
            user_id := Some (lit ''graphrag_user'')\<rparr>,
         conversation_created := True\<rparr>,
      \<lparr>requests = [first_request], error_log = []\<rparr>)"

section \<open>Vocabulary of the properties\<close>

text \<open>
  \<open>callback_first prev acts\<close>: in \<open>acts\<close>, observed after \<open>prev\<close>, every yield of an
  event comes right after the callback on that event.
\<close>

fun callback_first :: "action option \<Rightarrow> action list \<Rightarrow> bool" where
  "callback_first prev [] = True"
| "callback_first prev (Yield v # acts) =
     (prev = Some (Callback v) \<and> callback_first (Some (Yield v)) acts)"
| "callback_first prev (Callback v # acts) = callback_first (Some (Callback v)) acts"
| "callback_first prev (LogError m # acts) = callback_first (Some (LogError m)) acts"

text \<open>
  The exceptions the handler of line 162 takes, and those the handler of line 176 takes.
\<close>

definition caught_in_loop :: "error \<Rightarrow> bool" where
  "caught_in_loop e \<longleftrightarrow> e = JSONDecodeError"

definition caught_at_end :: "error \<Rightarrow> bool" where
  "caught_at_end e \<longleftrightarrow> e = UnicodeDecodeError \<or> e = JSONDecodeError"

text \<open>
  \<open>aborts_at caught cb acts r\<close>: a callback of \<open>acts\<close> that raises an exception no
  handler takes is the last thing observed, and the run ends with that exception.
\<close>

definition aborts_at ::
  "(error \<Rightarrow> bool) \<Rightarrow> (json \<Rightarrow> error option) \<Rightarrow> action list \<Rightarrow> error option \<Rightarrow> bool" where
  "aborts_at caught cb acts r \<longleftrightarrow>
     (\<forall>data e. Callback data \<in> set acts \<and> cb data = Some e \<and> \<not> caught e \<longrightarrow>
        r = Some e \<and> last acts = Callback data)"

text \<open>The exception of a loop's result, if it has one.\<close>

definition raised :: "error + 'a \<Rightarrow> error option" where
  "raised r = (case r of Inl e \<Rightarrow> Some e | Inr x \<Rightarrow> None)"

text \<open>A stretch of observations that satisfies \<open>callback_first\<close> after anything.\<close>

definition segment :: "action list \<Rightarrow> bool" where
  "segment acts \<longleftrightarrow> (\<forall>p. callback_first p acts)"

text \<open>
  \<open>only_chat_queries c w w'\<close>: from \<open>w\<close> to \<open>w'\<close> the requests sent are requests to
  \<^verbatim>\<open>chat_query_v2\<close> of the client \<open>c\<close>, added at the end.
\<close>

definition only_chat_queries :: "HiAgentLLMClient \<Rightarrow> world \<Rightarrow> world \<Rightarrow> bool" where
  "only_chat_queries c w w' \<longleftrightarrow>
     (\<exists>rs. requests w' = requests w @ rs \<and>
        list_all (\<lambda>req. url req = api_url c @ ''/api/proxy/api/v1/chat_query_v2'') rs)"

text \<open>
  What \<^verbatim>\<open>chat_stream\<close> reads in an event: whether it is a dict, its \<^verbatim>\<open>get("event")\<close>
  and its \<^verbatim>\<open>get("answer", "")\<close>. A fragment is an event of the message kind whose
  answer is true in the sense of \<^verbatim>\<open>if answer:\<close>, which for a text is: not empty.
\<close>

definition is_dict :: "json \<Rightarrow> bool" where
  "is_dict data = (case data of JObj d \<Rightarrow> True | _ \<Rightarrow> False)"

definition event_field :: "json \<Rightarrow> json" where
  "event_field data = (case data of JObj d \<Rightarrow> dict_get d ''event'' | _ \<Rightarrow> JNull)"

definition answer_field :: "json \<Rightarrow> json" where
  "answer_field data =
     (case data of JObj d \<Rightarrow> dict_get_default d ''answer'' (JStr []) | _ \<Rightarrow> JNull)"

definition is_fragment :: "json \<Rightarrow> bool" where
  "is_fragment data \<longleftrightarrow>
     event_field data = JStr (lit ''message'') \<and> truthy (answer_field data)"

text \<open>The definitions an instance is evaluated with.\<close>

lemmas facade_eval =
  init_def fresh_world_def conversation_response_def empty_response_def answer_response_def
  dropped_response_def serving_def create_conversation_def create_conversation_request_def
  chat_query_request_def chat_query_blocking_def chat_query_streaming_def logged_def
  raise_for_status_def sent_def log_reraise_def dict_get_def dict_get_default_def
  ensure_conversation_def chat_def chat_stream_def achat_stream_def stream_generator_def
  stream_answers_def json_loads_def achat_def Let_def

lemmas sample_eval =
  facade_eval decoder_eval good_server_def dropping_server_def careless_server_def
  started_def first_request_def ready_def creations_def

section \<open>The decoder and the chunking of the body\<close>

lemma split_append:
  assumes "newline \<in> set buf"
  shows "takeWhile (\<lambda>c. c \<noteq> newline) (buf @ c) = takeWhile (\<lambda>c. c \<noteq> newline) buf"
    and "tl (dropWhile (\<lambda>c. c \<noteq> newline) (buf @ c)) = tl (dropWhile (\<lambda>c. c \<noteq> newline) buf) @ c"
proof -
  from assms show "takeWhile (\<lambda>c. c \<noteq> newline) (buf @ c) = takeWhile (\<lambda>c. c \<noteq> newline) buf"
    by simp
  from assms have ne: "dropWhile (\<lambda>c. c \<noteq> newline) buf \<noteq> []"
    by simp
  from assms have "dropWhile (\<lambda>c. c \<noteq> newline) (buf @ c) = dropWhile (\<lambda>c. c \<noteq> newline) buf @ c"
    by simp
  with ne show "tl (dropWhile (\<lambda>c. c \<noteq> newline) (buf @ c)) = tl (dropWhile (\<lambda>c. c \<noteq> newline) buf) @ c"
    by simp
qed

lemma while_newline_append:
  "while_newline loads on_message debug (buf @ c) =
     (case while_newline loads on_message debug buf of
        (acts, Inl e) \<Rightarrow> (acts, Inl e)
      | (acts, Inr b) \<Rightarrow>
          (case while_newline loads on_message debug (b @ c) of
             (acts', r) \<Rightarrow> (acts @ acts', r)))"
proof (induction loads on_message debug buf rule: while_newline.induct)
  case (1 loads on_message debug buffer)
  show ?case
  proof (cases "newline \<in> set buffer")
    case False
    then show ?thesis
      by (simp add: while_newline.simps [of _ _ _ buffer])
  next
    case True
    obtain acts r where lb: "line_body loads on_message debug (takeWhile (\<lambda>c. c \<noteq> newline) buffer) = (acts, r)"
      by (cases "line_body loads on_message debug (takeWhile (\<lambda>c. c \<noteq> newline) buffer)")
    show ?thesis
    proof (cases r)
      case (Some e)
      with True lb show ?thesis
        by (simp add: while_newline.simps [of _ _ _ buffer] while_newline.simps [of _ _ _ "buffer @ c"] split_append)
    next
      case None
      note IH = "1.IH" [OF True lb [symmetric] None]
      from True lb None show ?thesis
        by (simp add: while_newline.simps [of _ _ _ buffer] while_newline.simps [of _ _ _ "buffer @ c"] split_append IH
            split: prod.splits sum.splits)
    qed
  qed
qed

lemma while_newline_rest:
  "while_newline loads on_message debug buf = (acts, Inr b) \<Longrightarrow> newline \<notin> set b"
proof (induction loads on_message debug buf arbitrary: acts rule: while_newline.induct)
  case (1 loads on_message debug buffer)
  show ?case
  proof (cases "newline \<in> set buffer")
    case False
    with "1.prems" show ?thesis
      by (simp add: while_newline.simps [of _ _ _ buffer])
  next
    case True
    with "1.prems" "1.IH" show ?thesis
      by (auto simp: while_newline.simps [of _ _ _ buffer] split: prod.splits option.splits sum.splits)
  qed
qed

lemma for_chunk_concat:
  "newline \<notin> set buffer \<Longrightarrow>
   for_chunk loads on_message debug stop buffer chunks =
     (case while_newline loads on_message debug (buffer @ concat chunks) of
        (acts, Inl e) \<Rightarrow> (acts, Inl e)
      | (acts, Inr b) \<Rightarrow> (acts, case stop of Some e \<Rightarrow> Inl e | None \<Rightarrow> Inr b))"
proof (induction chunks arbitrary: buffer)
  case Nil
  then show ?case
    by (simp add: while_newline.simps [of _ _ _ buffer] split: option.splits)
next
  case (Cons chunk chunks)
  show ?case
  proof (cases "chunk = []")
    case True
    with Cons show ?thesis by simp
  next
    case False
    obtain acts r where w: "while_newline loads on_message debug (buffer @ chunk) = (acts, r)"
      by (cases "while_newline loads on_message debug (buffer @ chunk)")
    have app: "while_newline loads on_message debug (buffer @ chunk @ concat chunks) =
        (case r of Inl e \<Rightarrow> (acts, Inl e)
         | Inr b \<Rightarrow> (case while_newline loads on_message debug (b @ concat chunks) of
                      (acts', r') \<Rightarrow> (acts @ acts', r')))"
      using while_newline_append [of loads on_message debug "buffer @ chunk" "concat chunks"] w
      by simp
    show ?thesis
    proof (cases r)
      case (Inl e)
      with False w app show ?thesis by simp
    next
      case (Inr b)
      with w have "newline \<notin> set b"
        by (auto dest: while_newline_rest)
      from Cons.IH [OF this] False w app Inr show ?thesis
        by (simp split: prod.splits sum.splits option.splits)
    qed
  qed
qed

text \<open>
  The example of the spec: one event split over two chunks.
\<close>

lemma example_split_event:
  \<open>decode_stream sample_loads None False
     [''data: {"event": "mess'', ''age", "answer": "hi"}'' @ [newline]] None =
   ([Yield hi_event], None)\<close>
  by (simp add: decoder_eval)

text \<open>
  C1. However the body is cut into chunks (empty chunks and one-byte chunks included),
  the decoder observes and yields what it does on the whole body as one chunk: the same
  callbacks and events in the same order, and the same end. This holds for every body,
  so for the bodies made of \<^verbatim>\<open>data: <json>\<close> lines.
\<close>

theorem C1_chunking_invariance:
  "decode_stream loads on_message debug chunks stop =
     decode_stream loads on_message debug [concat chunks] stop \<and>
   yielded (fst (decode_stream loads on_message debug chunks stop)) =
     yielded (fst (decode_stream loads on_message debug [concat chunks] stop))"
proof -
  have "for_chunk loads on_message debug stop [] chunks =
        for_chunk loads on_message debug stop [] [concat chunks]"
    by (simp only: for_chunk_concat [of "[]"] empty_iff list.set concat.simps append_Nil2
          not_False_eq_True)
  then have "decode_stream loads on_message debug chunks stop =
        decode_stream loads on_message debug [concat chunks] stop"
    by (simp only: decode_stream_def)
  then show ?thesis by simp
qed

text \<open>An instance: two lines and a fragment, delivered one byte at a time.\<close>

theorem C1_chunking_invariance_witness:
  "decode_stream sample_loads None False
     (map (\<lambda>c. [c]) (''data: 5'' @ [newline] @ ''data: 6'' @ [newline] @ ''data: 5'')) None =
   ([Yield (JInt 5), Yield (JInt 6), Yield (JInt 5)], None)"
proof -
  have "decode_stream sample_loads None False
      [''data: 5'' @ [newline] @ ''data: 6'' @ [newline] @ ''data: 5''] None =
      ([Yield (JInt 5), Yield (JInt 6), Yield (JInt 5)], None)"
    by (simp add: decoder_eval)
  with C1_chunking_invariance [of sample_loads None False
      "map (\<lambda>c. [c]) (''data: 5'' @ [newline] @ ''data: 6'' @ [newline] @ ''data: 5'')" None]
  show ?thesis by simp
qed

section \<open>Lines and the trailing fragment\<close>

lemma yielded_append: "yielded (xs @ ys) = yielded xs @ yielded ys"
  by (induction xs rule: yielded.induct) auto

lemma takeWhile_line:
  "x \<notin> set xs \<Longrightarrow> takeWhile (\<lambda>c. c \<noteq> x) (xs @ x # ys) = xs"
  by (induction xs) auto

lemma dropWhile_line:
  "x \<notin> set xs \<Longrightarrow> dropWhile (\<lambda>c. c \<noteq> x) (xs @ x # ys) = x # ys"
  by (induction xs) auto

text \<open>
  C7. A line that decodes as UTF-8 and, once trimmed, is empty or does not start with
  \<^verbatim>\<open>data:\<close> gives no callback and no event and raises nothing; in the loop, the
  buffer with that line in front is decoded as the buffer without it.
\<close>

theorem C7_line_without_data_prefix:
  assumes "decode line_bytes = Inr s"
    and "strip s = [] \<or> \<not> startswith (strip s) ''data:''"
  shows "line_body loads on_message debug line_bytes = ([], None) \<and>
         (newline \<notin> set line_bytes \<longrightarrow>
            while_newline loads on_message debug (line_bytes @ newline # rest) =
            while_newline loads on_message debug rest)"
proof -
  from assms have lb: "line_body loads on_message debug line_bytes = ([], None)"
    by (auto simp: line_body_def Let_def)
  have "while_newline loads on_message debug (line_bytes @ newline # rest) =
        while_newline loads on_message debug rest" if "newline \<notin> set line_bytes"
  proof -
    from that have tw: "takeWhile (\<lambda>c. c \<noteq> newline) (line_bytes @ newline # rest) = line_bytes"
      by (rule takeWhile_line)
    from that have dw: "dropWhile (\<lambda>c. c \<noteq> newline) (line_bytes @ newline # rest) = newline # rest"
      by (rule dropWhile_line)
    show ?thesis
      by (subst while_newline.simps) (simp add: tw dw lb split: prod.splits)
  qed
  with lb show ?thesis by blast
qed

theorem C7_line_without_data_prefix_witness:
  "decode ''event: ping'' = Inr (lit ''event: ping'') \<and>
   \<not> startswith (strip (lit ''event: ping'')) ''data:'' \<and>
   newline \<notin> set ''event: ping'' \<and>
   line_body sample_loads (Some parsing_callback) True ''event: ping'' = ([], None) \<and>
   while_newline sample_loads (Some parsing_callback) True
     (''event: ping'' @ newline # ''data: 6'' @ [newline]) =
   while_newline sample_loads (Some parsing_callback) True (''data: 6'' @ [newline])"
proof -
  have h1: "decode ''event: ping'' = Inr (lit ''event: ping'')"
    by (simp add: decoder_eval)
  have h2: "strip (lit ''event: ping'') = [] \<or> \<not> startswith (strip (lit ''event: ping'')) ''data:''"
    by (simp add: decoder_eval)
  have h3: "newline \<notin> set ''event: ping''"
    by (simp add: newline_def)
  from C7_line_without_data_prefix [OF h1 h2, of sample_loads "Some parsing_callback" True
      "''data: 6'' @ [newline]"] h1 h2 h3
  show ?thesis by (simp add: lit_def strip_def isspace_def startswith_def)
qed

lemma decode_stream_split:
  "for_chunk loads on_message debug stop [] chunks = (acts, Inr buffer) \<Longrightarrow>
   decode_stream loads on_message debug chunks stop =
     (acts @ fst (trailing loads on_message buffer), snd (trailing loads on_message buffer))"
  by (simp add: decode_stream_def split: prod.splits)

text \<open>
  C2, as the code has it. The chunks are exhausted without an exception and leave a
  non-empty fragment in the buffer. If the fragment decodes, its trimmed text starts
  with \<^verbatim>\<open>data:\<close>, the rest parses and the callback, if there is one, returns, then
  exactly one more event, the parsed value, follows what was observed before. If the
  fragment does not decode, or has no such prefix, or does not parse, nothing follows
  and nothing is raised. What was observed before the fragment stays as it was in both
  cases.
\<close>

theorem C2_trailing_fragment:
  assumes "for_chunk loads on_message debug None [] chunks = (acts, Inr buffer)"
    and "buffer \<noteq> []"
  shows "(\<forall>s data.
            decode buffer = Inr s \<and> startswith (strip s) ''data:'' \<and>
            loads (strip (drop 5 (strip s))) = Some data \<and>
            (case on_message of None \<Rightarrow> True | Some cb \<Rightarrow> cb data = None) \<longrightarrow>
            decode_stream loads on_message debug chunks None =
              (acts @ (case on_message of None \<Rightarrow> [Yield data]
                       | Some cb \<Rightarrow> [Callback data, Yield data]), None) \<and>
            yielded (fst (decode_stream loads on_message debug chunks None)) =
              yielded acts @ [data]) \<and>
         ((\<forall>s. decode buffer = Inr s \<and> startswith (strip s) ''data:'' \<longrightarrow>
                loads (strip (drop 5 (strip s))) = None) \<longrightarrow>
            decode_stream loads on_message debug chunks None = (acts, None))"
proof (intro conjI allI impI)
  fix s data
  assume h: "decode buffer = Inr s \<and> startswith (strip s) ''data:'' \<and>
            loads (strip (drop 5 (strip s))) = Some data \<and>
            (case on_message of None \<Rightarrow> True | Some cb \<Rightarrow> cb data = None)"
  with assms(2) have t: "trailing loads on_message buffer =
      ((case on_message of None \<Rightarrow> [Yield data] | Some cb \<Rightarrow> [Callback data, Yield data]), None)"
    by (auto simp: trailing_def emit_def Let_def split: option.splits)
  with decode_stream_split [OF assms(1)]
  show d: "decode_stream loads on_message debug chunks None =
      (acts @ (case on_message of None \<Rightarrow> [Yield data]
               | Some cb \<Rightarrow> [Callback data, Yield data]), None)"
    by simp
  show "yielded (fst (decode_stream loads on_message debug chunks None)) = yielded acts @ [data]"
    by (simp add: d yielded_append split: option.splits)
next
  assume h: "\<forall>s. decode buffer = Inr s \<and> startswith (strip s) ''data:'' \<longrightarrow>
                loads (strip (drop 5 (strip s))) = None"
  have "trailing loads on_message buffer = ([], None)"
  proof (cases "decode buffer")
    case (Inl e)
    then show ?thesis by (simp add: trailing_def)
  next
    case (Inr s)
    with h show ?thesis
      by (auto simp: trailing_def Let_def)
  qed
  with decode_stream_split [OF assms(1)]
  show "decode_stream loads on_message debug chunks None = (acts, None)"
    by simp
qed

theorem C2_trailing_fragment_witness:
  "for_chunk sample_loads None False None [] [''data: 5'' @ [newline], ''data: 6''] =
     ([Yield (JInt 5)], Inr ''data: 6'') \<and>
   decode_stream sample_loads None False [''data: 5'' @ [newline], ''data: 6''] None =
     ([Yield (JInt 5), Yield (JInt 6)], None) \<and>
   for_chunk sample_loads None False None [] [''data: 5'' @ [newline], ''data: {''] =
     ([Yield (JInt 5)], Inr ''data: {'') \<and>
   decode_stream sample_loads None False [''data: 5'' @ [newline], ''data: {''] None =
     ([Yield (JInt 5)], None)"
proof -
  have a1: "for_chunk sample_loads None False None [] [''data: 5'' @ [newline], ''data: 6''] =
     ([Yield (JInt 5)], Inr ''data: 6'')"
    by (simp add: decoder_eval)
  have a2: "''data: 6'' \<noteq> []" by simp
  have b1: "for_chunk sample_loads None False None [] [''data: 5'' @ [newline], ''data: {''] =
     ([Yield (JInt 5)], Inr ''data: {'')"
    by (simp add: decoder_eval)
  have b2: "''data: {'' \<noteq> []" by simp
  have d6: "decode ''data: 6'' = Inr (lit ''data: 6'')" by (simp add: decoder_eval)
  have db: "decode ''data: {'' = Inr (lit ''data: {'')" by (simp add: decoder_eval)
  from C2_trailing_fragment [OF a1 a2] d6
  have r1: "decode_stream sample_loads None False [''data: 5'' @ [newline], ''data: 6''] None =
     ([Yield (JInt 5), Yield (JInt 6)], None)"
    by (simp add: lit_def strip_def isspace_def startswith_def sample_loads_def)
  from C2_trailing_fragment [OF b1 b2] db
  have r2: "decode_stream sample_loads None False [''data: 5'' @ [newline], ''data: {''] None =
     ([Yield (JInt 5)], None)"
    by (simp add: lit_def strip_def isspace_def startswith_def sample_loads_def)
  from a1 b1 r1 r2 show ?thesis by simp
qed

text \<open>
  Without the condition on the callback the statement fails: the callback is called
  before the yield (lines 173-175), and when it raises, the event of a fragment that
  decodes, has the prefix and parses is not yielded, and the exception leaves the
  decoder.
\<close>

theorem C2_fragment_callback_raises:
  "for_chunk sample_loads (Some raising_callback) False None []
      [''data: 6'' @ [newline], ''data: 5''] =
     ([Callback (JInt 6), Yield (JInt 6)], Inr ''data: 5'') \<and>
   decode ''data: 5'' = Inr (lit ''data: 5'') \<and>
   startswith (strip (lit ''data: 5'')) ''data:'' \<and>
   sample_loads (strip (drop 5 (strip (lit ''data: 5'')))) = Some (JInt 5) \<and>
   decode_stream sample_loads (Some raising_callback) False
      [''data: 6'' @ [newline], ''data: 5''] None =
     ([Callback (JInt 6), Yield (JInt 6), Callback (JInt 5)], Some OtherException) \<and>
   yielded (fst (decode_stream sample_loads (Some raising_callback) False
      [''data: 6'' @ [newline], ''data: 5''] None)) = [JInt 6]"
  by (simp add: decoder_eval raising_callback_def)

section \<open>The callback\<close>

lemma callback_first_append:
  "callback_first p (xs @ ys) \<longleftrightarrow>
     callback_first p xs \<and> callback_first (if xs = [] then p else Some (last xs)) ys"
  by (induction p xs rule: callback_first.induct) auto

lemma segment_Nil: "segment []"
  by (simp add: segment_def)

lemma segment_append: "segment xs \<Longrightarrow> segment ys \<Longrightarrow> segment (xs @ ys)"
  by (simp add: segment_def callback_first_append)

lemma segment_emit: "emit (Some cb) data = (acts, r) \<Longrightarrow> segment acts"
  by (auto simp: segment_def emit_def split: option.splits)

lemma segment_line_body:
  "line_body loads (Some cb) debug line_bytes = (acts, r) \<Longrightarrow> segment acts"
  by (auto simp: line_body_def Let_def segment_Nil
      split: sum.splits option.splits prod.splits if_splits dest: segment_emit)

lemma segment_while_newline:
  "while_newline loads (Some cb) debug buffer = (acts, r) \<Longrightarrow> segment acts"
proof (induction loads "Some cb" debug buffer arbitrary: acts r rule: while_newline.induct)
  case (1 loads debug buffer)
  show ?case
  proof (cases "newline \<in> set buffer")
    case False
    with "1.prems" show ?thesis
      by (simp add: while_newline.simps [of _ _ _ buffer] segment_Nil)
  next
    case True
    obtain acts1 r1 where lb:
      "line_body loads (Some cb) debug (takeWhile (\<lambda>c. c \<noteq> newline) buffer) = (acts1, r1)"
      by (cases "line_body loads (Some cb) debug (takeWhile (\<lambda>c. c \<noteq> newline) buffer)")
    have sa: "segment acts1"
      using lb by (rule segment_line_body)
    show ?thesis
    proof (cases r1)
      case (Some e)
      with True lb sa "1.prems" show ?thesis
        by (simp add: while_newline.simps [of _ _ _ buffer])
    next
      case None
      obtain acts2 r2 where w2:
        "while_newline loads (Some cb) debug (tl (dropWhile (\<lambda>c. c \<noteq> newline) buffer)) = (acts2, r2)"
        by (cases "while_newline loads (Some cb) debug (tl (dropWhile (\<lambda>c. c \<noteq> newline) buffer))")
      have "segment acts2"
        using "1.hyps" [OF True lb [symmetric] None w2] .
      with sa True lb None w2 "1.prems" show ?thesis
        by (auto simp: while_newline.simps [of _ _ _ buffer] segment_append)
    qed
  qed
qed

lemma segment_for_chunk:
  "for_chunk loads (Some cb) debug stop buffer chunks = (acts, r) \<Longrightarrow> segment acts"
proof (induction chunks arbitrary: buffer acts r)
  case Nil
  then show ?case by (auto simp: segment_Nil split: option.splits)
next
  case (Cons chunk chunks)
  then show ?case
    by (auto simp: segment_append split: prod.splits sum.splits if_splits
        dest: segment_while_newline)
qed

lemma segment_trailing:
  "trailing loads (Some cb) buffer = (acts, r) \<Longrightarrow> segment acts"
  by (auto simp: trailing_def Let_def segment_Nil
      split: sum.splits option.splits prod.splits if_splits dest: segment_emit)

lemma segment_decode_stream:
  "decode_stream loads (Some cb) debug chunks stop = (acts, r) \<Longrightarrow> segment acts"
proof -
  assume d: "decode_stream loads (Some cb) debug chunks stop = (acts, r)"
  obtain acts1 r1 where f: "for_chunk loads (Some cb) debug stop [] chunks = (acts1, r1)"
    by (cases "for_chunk loads (Some cb) debug stop [] chunks")
  then have s1: "segment acts1" by (rule segment_for_chunk)
  show ?thesis
  proof (cases r1)
    case (Inl e)
    with d f s1 show ?thesis by (simp add: decode_stream_def)
  next
    case (Inr buffer)
    obtain acts2 r2 where t: "trailing loads (Some cb) buffer = (acts2, r2)"
      by (cases "trailing loads (Some cb) buffer")
    then have "segment acts2" by (rule segment_trailing)
    with d f s1 Inr t show ?thesis
      by (auto simp: decode_stream_def segment_append)
  qed
qed


lemma aborts_at_Nil: "aborts_at caught cb [] r"
  by (simp add: aborts_at_def)

lemma aborts_at_append:
  assumes "aborts_at caught cb xs None" and "aborts_at caught cb ys r"
  shows "aborts_at caught cb (xs @ ys) r"
  unfolding aborts_at_def
proof (intro allI impI)
  fix data e
  assume h: "Callback data \<in> set (xs @ ys) \<and> cb data = Some e \<and> \<not> caught e"
  with assms(1) have "Callback data \<notin> set xs"
    by (auto simp: aborts_at_def)
  with h have in_ys: "Callback data \<in> set ys" by simp
  then have "ys \<noteq> []" by auto
  then have "last (xs @ ys) = last ys" by simp
  with assms(2) h in_ys show "r = Some e \<and> last (xs @ ys) = Callback data"
    by (auto simp: aborts_at_def)
qed

lemma aborts_at_end:
  "aborts_at caught_in_loop cb acts r \<Longrightarrow> aborts_at caught_at_end cb acts r"
  by (auto simp: aborts_at_def caught_in_loop_def caught_at_end_def)

lemma aborts_at_line_body:
  "line_body loads (Some cb) debug line_bytes = (acts, r) \<Longrightarrow>
   aborts_at caught_in_loop cb acts r"
  by (auto simp: line_body_def Let_def emit_def aborts_at_def caught_in_loop_def
      split: sum.splits option.splits prod.splits if_splits)

lemma aborts_at_trailing:
  "trailing loads (Some cb) buffer = (acts, r) \<Longrightarrow> aborts_at caught_at_end cb acts r"
  by (auto simp: trailing_def Let_def emit_def aborts_at_def caught_at_end_def
      split: sum.splits option.splits prod.splits if_splits)

lemma aborts_at_while_newline:
  "while_newline loads (Some cb) debug buffer = (acts, r) \<Longrightarrow>
   aborts_at caught_in_loop cb acts (raised r)"
proof (induction loads "Some cb" debug buffer arbitrary: acts r rule: while_newline.induct)
  case (1 loads debug buffer)
  show ?case
  proof (cases "newline \<in> set buffer")
    case False
    with "1.prems" show ?thesis
      by (simp add: while_newline.simps [of _ _ _ buffer] aborts_at_Nil)
  next
    case True
    obtain acts1 r1 where lb:
      "line_body loads (Some cb) debug (takeWhile (\<lambda>c. c \<noteq> newline) buffer) = (acts1, r1)"
      by (cases "line_body loads (Some cb) debug (takeWhile (\<lambda>c. c \<noteq> newline) buffer)")
    have sa: "aborts_at caught_in_loop cb acts1 r1"
      using lb by (rule aborts_at_line_body)
    show ?thesis
    proof (cases r1)
      case (Some e)
      with True lb sa "1.prems" show ?thesis
        by (auto simp: while_newline.simps [of _ _ _ buffer] raised_def)
    next
      case None
      obtain acts2 r2 where w2:
        "while_newline loads (Some cb) debug (tl (dropWhile (\<lambda>c. c \<noteq> newline) buffer)) = (acts2, r2)"
        by (cases "while_newline loads (Some cb) debug (tl (dropWhile (\<lambda>c. c \<noteq> newline) buffer))")
      have "aborts_at caught_in_loop cb acts2 (raised r2)"
        using "1.hyps" [OF True lb [symmetric] None w2] .
      with sa True lb None w2 "1.prems" show ?thesis
        by (auto simp: while_newline.simps [of _ _ _ buffer] aborts_at_append)
    qed
  qed
qed

lemma aborts_at_for_chunk:
  "for_chunk loads (Some cb) debug stop buffer chunks = (acts, r) \<Longrightarrow>
   aborts_at caught_in_loop cb acts (raised r)"
proof (induction chunks arbitrary: buffer acts r)
  case Nil
  then show ?case by (auto simp: aborts_at_Nil split: option.splits)
next
  case (Cons chunk chunks)
  show ?case
  proof (cases "chunk = []")
    case True
    with Cons show ?thesis by simp
  next
    case False
    obtain acts1 r1 where w: "while_newline loads (Some cb) debug (buffer @ chunk) = (acts1, r1)"
      by (cases "while_newline loads (Some cb) debug (buffer @ chunk)")
    then have a1: "aborts_at caught_in_loop cb acts1 (raised r1)"
      by (rule aborts_at_while_newline)
    show ?thesis
    proof (cases r1)
      case (Inl e)
      with False w a1 Cons.prems show ?thesis by auto
    next
      case (Inr buffer')
      obtain acts2 r2 where f: "for_chunk loads (Some cb) debug stop buffer' chunks = (acts2, r2)"
        by (cases "for_chunk loads (Some cb) debug stop buffer' chunks")
      then have "aborts_at caught_in_loop cb acts2 (raised r2)" by (rule Cons.IH)
      with False w a1 Inr f Cons.prems show ?thesis
        by (auto simp: raised_def aborts_at_append)
    qed
  qed
qed

lemma aborts_at_decode_stream:
  "decode_stream loads (Some cb) debug chunks stop = (acts, r) \<Longrightarrow>
   aborts_at caught_at_end cb acts r"
proof -
  assume d: "decode_stream loads (Some cb) debug chunks stop = (acts, r)"
  obtain acts1 r1 where f: "for_chunk loads (Some cb) debug stop [] chunks = (acts1, r1)"
    by (cases "for_chunk loads (Some cb) debug stop [] chunks")
  then have "aborts_at caught_in_loop cb acts1 (raised r1)" by (rule aborts_at_for_chunk)
  then have s1: "aborts_at caught_at_end cb acts1 (raised r1)" by (rule aborts_at_end)
  show ?thesis
  proof (cases r1)
    case (Inl e)
    with d f s1 show ?thesis by (auto simp: decode_stream_def raised_def)
  next
    case (Inr buffer)
    obtain acts2 r2 where t: "trailing loads (Some cb) buffer = (acts2, r2)"
      by (cases "trailing loads (Some cb) buffer")
    then have "aborts_at caught_at_end cb acts2 r2" by (rule aborts_at_trailing)
    with d f s1 Inr t show ?thesis
      by (auto simp: decode_stream_def raised_def aborts_at_append)
  qed
qed

text \<open>
  What holds of the callback in the decoder of lines 109-177. Every event yielded comes
  right after the callback on that event. A callback that raises anything but a
  \<^verbatim>\<open>JSONDecodeError\<close> or a \<^verbatim>\<open>UnicodeDecodeError\<close> ends the run with that exception, the
  callback being the last thing the decoder lets observe (the handler of lines 186-188
  then logs a \<^verbatim>\<open>RequestException\<close> and raises it again); in the loop over the chunks,
  before the final fragment, so does a callback that raises anything but a
  \<^verbatim>\<open>JSONDecodeError\<close>.
\<close>

lemma callback_before_yield:
  "callback_first None (fst (decode_stream loads (Some cb) debug chunks stop)) \<and>
   (\<forall>data e.
      Callback data \<in> set (fst (decode_stream loads (Some cb) debug chunks stop)) \<and>
      cb data = Some e \<and> e \<noteq> JSONDecodeError \<and> e \<noteq> UnicodeDecodeError \<longrightarrow>
      snd (decode_stream loads (Some cb) debug chunks stop) = Some e \<and>
      last (fst (decode_stream loads (Some cb) debug chunks stop)) = Callback data) \<and>
   (\<forall>data e.
      Callback data \<in> set (fst (for_chunk loads (Some cb) debug stop [] chunks)) \<and>
      cb data = Some e \<and> e \<noteq> JSONDecodeError \<longrightarrow>
      snd (for_chunk loads (Some cb) debug stop [] chunks) = Inl e \<and>
      last (fst (for_chunk loads (Some cb) debug stop [] chunks)) = Callback data)"
proof -
  obtain acts r where d: "decode_stream loads (Some cb) debug chunks stop = (acts, r)"
    by (cases "decode_stream loads (Some cb) debug chunks stop")
  obtain acts' r' where f: "for_chunk loads (Some cb) debug stop [] chunks = (acts', r')"
    by (cases "for_chunk loads (Some cb) debug stop [] chunks")
  from segment_decode_stream [OF d] have "callback_first None acts"
    by (simp add: segment_def)
  moreover from aborts_at_decode_stream [OF d] have "aborts_at caught_at_end cb acts r" .
  moreover from aborts_at_for_chunk [OF f] have "aborts_at caught_in_loop cb acts' (raised r')" .
  ultimately show ?thesis
    using d f
    by (auto simp: aborts_at_def caught_at_end_def caught_in_loop_def raised_def
        split: sum.splits)
qed

lemma callback_before_yield_instance:
  "decode_stream sample_loads (Some raising_callback) False
      [''data: 6'' @ [newline] @ ''data: 5'' @ [newline] @ ''data: 6''] None =
     ([Callback (JInt 6), Yield (JInt 6), Callback (JInt 5)], Some OtherException) \<and>
   callback_first None [Callback (JInt 6), Yield (JInt 6), Callback (JInt 5)] \<and>
   raising_callback (JInt 5) = Some OtherException \<and>
   for_chunk sample_loads (Some decoding_callback) False None []
      [''data: 6'' @ [newline] @ ''data: 5'' @ [newline] @ ''data: 6''] =
     ([Callback (JInt 6), Yield (JInt 6), Callback (JInt 5)], Inl UnicodeDecodeError) \<and>
   decoding_callback (JInt 5) = Some UnicodeDecodeError"
proof -
  have d: "decode_stream sample_loads (Some raising_callback) False
      [''data: 6'' @ [newline] @ ''data: 5'' @ [newline] @ ''data: 6''] None =
     ([Callback (JInt 6), Yield (JInt 6), Callback (JInt 5)], Some OtherException)"
    by (simp add: decoder_eval raising_callback_def)
  have f: "for_chunk sample_loads (Some decoding_callback) False None []
      [''data: 6'' @ [newline] @ ''data: 5'' @ [newline] @ ''data: 6''] =
     ([Callback (JInt 6), Yield (JInt 6), Callback (JInt 5)], Inl UnicodeDecodeError)"
    by (simp add: decoder_eval decoding_callback_def)
  from callback_before_yield [of sample_loads raising_callback False
      "[''data: 6'' @ [newline] @ ''data: 5'' @ [newline] @ ''data: 6'']" None]
    callback_before_yield [of sample_loads decoding_callback False
      "[''data: 6'' @ [newline] @ ''data: 5'' @ [newline] @ ''data: 6'']" None] d f
  show ?thesis by (simp add: raising_callback_def decoding_callback_def)
qed

text \<open>
  C3. An exception of the callback is to leave the decoder and end the iteration. The
  code at three inputs: the call \<^verbatim>\<open>on_message(data)\<close> stands inside the \<^verbatim>\<open>try\<close> blocks
  of lines 145 and 168, whose handlers are written for the frame's own errors (the
  debug report of line 164 prints \<^verbatim>\<open>data_str\<close>). A callback that raises
  \<^verbatim>\<open>json.JSONDecodeError\<close> on the first of two events is taken by the handler of line
  162: the event is not yielded, the next one is, and the run ends without an
  exception. A callback that raises \<^verbatim>\<open>UnicodeDecodeError\<close> on the final fragment is
  taken by the handler of line 176, and the run ends without an exception; the same
  callback on the same event in a line ended by a newline ends the run with its
  exception.
\<close>

theorem C3_callback_exception_swallowed:
  "parsing_callback (JInt 5) = Some JSONDecodeError \<and>
   decode_stream sample_loads (Some parsing_callback) False
      [''data: 5'' @ [newline] @ ''data: 6'' @ [newline]] None =
     ([Callback (JInt 5), Callback (JInt 6), Yield (JInt 6)], None) \<and>
   decoding_callback (JInt 5) = Some UnicodeDecodeError \<and>
   decode_stream sample_loads (Some decoding_callback) False [''data: 5''] None =
     ([Callback (JInt 5)], None) \<and>
   decode_stream sample_loads (Some decoding_callback) False [''data: 5'' @ [newline]] None =
     ([Callback (JInt 5)], Some UnicodeDecodeError)"
  by (simp add: decoder_eval decoding_callback_def)

section \<open>Creating the conversation\<close>

lemma only_chat_queries_refl: "only_chat_queries c w w"
  by (simp add: only_chat_queries_def)

lemma requests_log_reraise: "requests (log_reraise msg e w) = requests w"
  by (simp add: log_reraise_def)

lemma create_conversation_requests:
  "create_conversation server uid inputs (c, w) = (r, c', w') \<Longrightarrow>
   requests w' = requests w @ [create_conversation_request c uid inputs]"
  by (auto simp: create_conversation_def Let_def sent_def requests_log_reraise
      split: sum.splits if_splits json.splits)

lemma create_conversation_raises:
  "create_conversation server uid inputs (c, w) = (Inl e, c', w') \<Longrightarrow> c' = c"
  by (auto simp: create_conversation_def Let_def split: sum.splits if_splits json.splits)

lemma create_conversation_api_url:
  "create_conversation server uid inputs (c, w) = (r, c', w') \<Longrightarrow> api_url c' = api_url c"
  by (auto simp: create_conversation_def Let_def split: sum.splits if_splits json.splits)

lemma chat_query_blocking_requests:
  "chat_query_blocking server query query_extends (c, w) = (r, w') \<Longrightarrow>
   only_chat_queries c w w'"
  by (auto simp: chat_query_blocking_def chat_query_request_def Let_def sent_def
        requests_log_reraise only_chat_queries_def
      split: sum.splits if_splits option.splits)

lemma for_data_requests: "requests (snd (for_data acts w)) = requests w"
  by (induction acts w rule: for_data.induct) (auto simp: Let_def split: json.splits prod.splits)

lemma stream_answers_requests: "requests (snd (stream_answers (gen, w))) = requests w"
proof -
  obtain acts r where "gen = (acts, r)" by (cases gen)
  then show ?thesis
    using for_data_requests [of acts w]
    by (auto simp: stream_answers_def split: prod.splits option.splits)
qed

lemma chat_query_streaming_requests:
  "chat_query_streaming server loads query query_extends on_message chunk_size debug (c, w) =
     (gen, w') \<Longrightarrow> only_chat_queries c w w'"
  by (auto simp: chat_query_streaming_def chat_query_request_def Let_def sent_def
        only_chat_queries_def
      split: sum.splits if_splits option.splits)

text \<open>
  C9. The service answers \<^verbatim>\<open>create_conversation\<close> with a 2xx status and a JSON object
  in which \<^verbatim>\<open>"Conversation"\<close> is missing or null. The call raises \<^verbatim>\<open>AttributeError\<close>,
  which is no \<^verbatim>\<open>RequestException\<close>; nothing is logged; the client is as it was, with
  \<^verbatim>\<open>app_conversation_id\<close> and \<^verbatim>\<open>user_id\<close> as unset as before.
\<close>

theorem C9_missing_conversation:
  assumes "server (requests w) (create_conversation_request c uid inputs) = Inr resp"
    and "200 \<le> status_code resp \<and> status_code resp < 300"
    and "json_body resp = Inr (JObj d)"
    and "map_of d (lit ''Conversation'') = None \<or> map_of d (lit ''Conversation'') = Some JNull"
  shows "create_conversation server uid inputs (c, w) =
           (Inl AttributeError, c, sent (create_conversation_request c uid inputs) w) \<and>
         \<not> is_RequestException AttributeError \<and>
         error_log (sent (create_conversation_request c uid inputs) w) = error_log w"
proof -
  from assms(2) have "\<not> raise_for_status resp"
    by (simp add: raise_for_status_def)
  moreover from assms(4) have "dict_get d ''Conversation'' = JNull"
    by (auto simp: dict_get_def)
  ultimately show ?thesis
    using assms(1,3) by (simp add: create_conversation_def Let_def sent_def)
qed

theorem C9_missing_conversation_witness:
  "create_conversation (serving empty_response answer_response) (lit ''graphrag_user'') JNull
     (client (init JNull JNull), fresh_world) =
   (Inl AttributeError, client (init JNull JNull),
    \<lparr>requests = [create_conversation_request (client (init JNull JNull)) (lit ''graphrag_user'') JNull],
     error_log = []\<rparr>) \<and>
   app_conversation_id (client (init JNull JNull)) = None \<and>
   user_id (client (init JNull JNull)) = None"
proof -
  have h1: "serving empty_response answer_response (requests fresh_world)
      (create_conversation_request (client (init JNull JNull)) (lit ''graphrag_user'') JNull) =
      Inr empty_response"
    by (simp add: serving_def create_conversation_request_def init_def)
  have h2: "200 \<le> status_code empty_response \<and> status_code empty_response < 300"
    by (simp add: empty_response_def)
  have h3: "json_body empty_response = Inr (JObj [])"
    by (simp add: empty_response_def)
  have h4: "map_of [] (lit ''Conversation'') = None \<or> map_of [] (lit ''Conversation'') = Some JNull"
    by simp
  from C9_missing_conversation [where server = "serving empty_response answer_response" and w = fresh_world
      and c = "client (init JNull JNull)", OF h1 h2 h3 h4]
  show ?thesis
    by (simp add: sent_def fresh_world_def init_def)
qed

lemma ensure_conversation_created:
  "conversation_created f \<Longrightarrow> ensure_conversation server (f, w) = (None, f, w)"
  by (simp add: ensure_conversation_def)

lemma ensure_conversation_raises:
  assumes "\<not> conversation_created f"
    and "create_conversation server (llm_user_id f) (conversation_inputs f) (client f, w) =
           (Inl e, c', w')"
  shows "ensure_conversation server (f, w) = (Some e, f, w')"
proof -
  from assms(2) have "c' = client f" by (rule create_conversation_raises)
  with assms show ?thesis by (simp add: ensure_conversation_def)
qed

lemma ensure_conversation_succeeds:
  assumes "\<not> conversation_created f"
    and "create_conversation server (llm_user_id f) (conversation_inputs f) (client f, w) =
           (Inr body, c', w')"
  shows "ensure_conversation server (f, w) =
           (None, f\<lparr>client := c', conversation_created := True\<rparr>, w')"
  using assms by (simp add: ensure_conversation_def)

lemma chat_after_ensure:
  assumes "ensure_conversation server fw = (r, f1, w1)"
  shows "fst (snd (chat server loads prompt query_extends want_json fw)) = f1 \<and>
         only_chat_queries (client f1) w1 (snd (snd (chat server loads prompt query_extends want_json fw)))"
proof (cases r)
  case (Some e)
  with assms show ?thesis by (simp add: chat_def only_chat_queries_refl)
next
  case None
  obtain res w2 where b: "chat_query_blocking server prompt query_extends (client f1, w1) = (res, w2)"
    by (cases "chat_query_blocking server prompt query_extends (client f1, w1)")
  then have "only_chat_queries (client f1) w1 w2" by (rule chat_query_blocking_requests)
  with assms None b show ?thesis
    by (auto simp: chat_def Let_def split: sum.splits json.splits)
qed

lemma chat_stream_after_ensure:
  assumes "ensure_conversation server fw = (r, f1, w1)"
  shows "fst (snd (chat_stream server loads prompt query_extends chunk_size fw)) = f1 \<and>
         only_chat_queries (client f1) w1
           (snd (snd (chat_stream server loads prompt query_extends chunk_size fw)))"
proof (cases r)
  case (Some e)
  with assms show ?thesis by (simp add: chat_stream_def only_chat_queries_refl)
next
  case None
  obtain gen w2 where s: "chat_query_streaming server loads prompt query_extends None chunk_size
      False (client f1, w1) = (gen, w2)"
    by (cases "chat_query_streaming server loads prompt query_extends None chunk_size False
      (client f1, w1)")
  then have o: "only_chat_queries (client f1) w1 w2" by (rule chat_query_streaming_requests)
  obtain out w3 where a: "stream_answers (gen, w2) = (out, w3)"
    by (cases "stream_answers (gen, w2)")
  with stream_answers_requests [of gen w2] have "requests w3 = requests w2" by simp
  with o have "only_chat_queries (client f1) w1 w3" by (simp add: only_chat_queries_def)
  with assms None s a show ?thesis
    by (simp add: chat_stream_def)
qed

lemma step_after_ensure:
  assumes "ensure_conversation server fw = (r, f1, w1)"
  shows "fst (step server loads c fw) = f1 \<and>
         only_chat_queries (client f1) w1 (snd (step server loads c fw))"
  using chat_after_ensure [OF assms] chat_stream_after_ensure [OF assms]
  by (cases c) simp_all

text \<open>
  C10. \<^verbatim>\<open>create_conversation\<close> raises in a call of \<^verbatim>\<open>chat\<close> or \<^verbatim>\<open>chat_stream\<close> on an
  instance whose flag is false. The call ends with that exception, the instance (flag,
  client, \<^verbatim>\<open>app_conversation_id\<close>, \<^verbatim>\<open>user_id\<close>) is unchanged, and the first request
  the next call sends, whichever call it is, is the request to create the conversation
  again.
\<close>

theorem C10_failed_creation_retried:
  assumes "\<not> conversation_created f"
    and "create_conversation server (llm_user_id f) (conversation_inputs f) (client f, w) =
           (Inl e, c', w')"
  shows "chat server loads prompt query_extends want_json (f, w) = (Inl e, f, w') \<and>
         chat_stream server loads prompt query_extends chunk_size (f, w) = (([], Some e), f, w') \<and>
         c' = client f \<and>
         take (Suc (length (requests w'))) (requests (snd (step server loads next_call (f, w')))) =
           requests w' @
           [create_conversation_request (client f) (llm_user_id f) (conversation_inputs f)]"
proof -
  from assms have e: "ensure_conversation server (f, w) = (Some e, f, w')"
    by (rule ensure_conversation_raises)
  then have c1: "chat server loads prompt query_extends want_json (f, w) = (Inl e, f, w')"
    by (simp add: chat_def)
  from e have c2: "chat_stream server loads prompt query_extends chunk_size (f, w) =
      (([], Some e), f, w')"
    by (simp add: chat_stream_def)
  from assms(2) have c3: "c' = client f" by (rule create_conversation_raises)
  obtain r c1 w1 where cr: "create_conversation server (llm_user_id f) (conversation_inputs f)
      (client f, w') = (r, c1, w1)"
    by (cases "create_conversation server (llm_user_id f) (conversation_inputs f) (client f, w')")
  then have rq: "requests w1 = requests w' @
      [create_conversation_request (client f) (llm_user_id f) (conversation_inputs f)]"
    by (rule create_conversation_requests)
  obtain r2 f2 where en: "ensure_conversation server (f, w') = (r2, f2, w1)"
    using assms(1) cr by (cases r) (simp_all add: ensure_conversation_def)
  from step_after_ensure [OF en, of loads next_call]
  have "only_chat_queries (client f2) w1 (snd (step server loads next_call (f, w')))"
    by simp
  then obtain rs where "requests (snd (step server loads next_call (f, w'))) = requests w1 @ rs"
    by (auto simp: only_chat_queries_def)
  with rq have "take (Suc (length (requests w')))
      (requests (snd (step server loads next_call (f, w')))) =
      requests w' @
      [create_conversation_request (client f) (llm_user_id f) (conversation_inputs f)]"
    by simp
  with c1 c2 c3 show ?thesis by simp
qed

theorem C10_failed_creation_retried_witness:
  "\<not> conversation_created (fst started) \<and>
   chat careless_server sample_loads (lit ''q'') JNull False started =
     (Inl AttributeError, fst started, \<lparr>requests = [first_request], error_log = []\<rparr>) \<and>
   chat_stream careless_server sample_loads (lit ''q'') JNull 1 started =
     (([], Some AttributeError), fst started, \<lparr>requests = [first_request], error_log = []\<rparr>) \<and>
   take 2 (requests (snd (step careless_server sample_loads (Chat (lit ''q'') JNull False)
      (fst started, \<lparr>requests = [first_request], error_log = []\<rparr>)))) =
     [first_request, first_request]"
proof -
  have h1: "\<not> conversation_created (init JNull JNull)"
    by (simp add: init_def)
  have h2: "create_conversation careless_server (llm_user_id (init JNull JNull))
      (conversation_inputs (init JNull JNull)) (client (init JNull JNull), fresh_world) =
      (Inl AttributeError, client (init JNull JNull),
       \<lparr>requests = [first_request], error_log = []\<rparr>)"
    by (simp add: sample_eval)
  have r: "create_conversation_request (client (init JNull JNull))
      (llm_user_id (init JNull JNull)) (conversation_inputs (init JNull JNull)) = first_request"
    by (simp add: first_request_def init_def)
  from C10_failed_creation_retried [OF h1 h2, where loads = sample_loads and prompt = "lit ''q''"
      and query_extends = JNull and want_json = False and chunk_size = 1
      and next_call = "Chat (lit ''q'') JNull False"] h1 r
  show ?thesis
    by (simp add: started_def numeral_2_eq_2)
qed

section \<open>The flag over a sequence of calls\<close>

lemma chat_url_not_create:
  "u @ ''/api/proxy/api/v1/chat_query_v2'' \<noteq> u @ ''/api/proxy/api/v1/create_conversation''"
  by simp

lemma creations_only_chat_queries:
  assumes "only_chat_queries c w w'" and "api_url c = api_url (client f)"
  shows "creations (f, w') = creations (f, w)"
proof -
  from assms(1) obtain rs where rs: "requests w' = requests w @ rs"
    and all: "list_all (\<lambda>req. url req = api_url c @ ''/api/proxy/api/v1/chat_query_v2'') rs"
    by (auto simp: only_chat_queries_def)
  have "filter (\<lambda>req. url req = api_url (client f) @ ''/api/proxy/api/v1/create_conversation'') rs = []"
    using all unfolding assms(2)
  proof (induction rs)
    case Nil
    show ?case by simp
  next
    case (Cons r rs)
    then have "url r = api_url (client f) @ ''/api/proxy/api/v1/chat_query_v2''" by simp
    then have "url r \<noteq> api_url (client f) @ ''/api/proxy/api/v1/create_conversation''"
      by (simp only: chat_url_not_create not_False_eq_True)
    with Cons show ?case by simp
  qed
  with rs show ?thesis by (simp add: creations_def)
qed


lemma step_created:
  assumes "conversation_created f"
  shows "conversation_created (fst (step server loads c (f, w))) \<and>
         creations (step server loads c (f, w)) = creations (f, w)"
proof -
  obtain f2 w2 where s: "step server loads c (f, w) = (f2, w2)"
    by (cases "step server loads c (f, w)")
  from assms have e: "ensure_conversation server (f, w) = (None, f, w)"
    by (rule ensure_conversation_created)
  from step_after_ensure [OF e, of loads c] s
  have f: "f2 = f" and o: "only_chat_queries (client f) w w2"
    by simp_all
  from creations_only_chat_queries [OF o, of f]
  have "creations (f, w2) = creations (f, w)" by simp
  with f assms s show ?thesis by simp
qed

lemma run_created:
  "conversation_created f \<Longrightarrow>
   map (\<lambda>s. conversation_created (fst s)) (run server loads calls (f, w)) =
     replicate (length calls) True \<and>
   map creations (run server loads calls (f, w)) = replicate (length calls) (creations (f, w))"
proof (induction calls arbitrary: f w)
  case Nil
  show ?case by simp
next
  case (Cons c calls)
  obtain f1 w1 where s: "step server loads c (f, w) = (f1, w1)"
    by (cases "step server loads c (f, w)")
  with step_created [OF Cons.prems, of server loads c w]
  have c1: "conversation_created f1" and n1: "creations (f1, w1) = creations (f, w)"
    by simp_all
  from Cons.IH [OF c1, of w1] s c1 n1 show ?case by simp
qed


lemma creations_after_create:
  assumes "requests w' = requests w @ [create_conversation_request c uid inputs]"
    and "api_url (client g) = api_url c" and "api_url (client f) = api_url c"
  shows "creations (g, w') = creations (f, w) + 1"
proof -
  have "url (create_conversation_request c uid inputs) =
        api_url c @ ''/api/proxy/api/v1/create_conversation''"
    by (simp only: create_conversation_request_def request.simps)
  with assms show ?thesis
    by (simp only: creations_def fst_conv snd_conv filter_append filter.simps if_True
          length_append list.size) simp
qed

lemma step_first:
  assumes "\<not> conversation_created f"
    and "create_conversation server (llm_user_id f) (conversation_inputs f) (client f, w) =
           (Inr body, c', w')"
  shows "conversation_created (fst (step server loads c (f, w))) \<and>
         creations (step server loads c (f, w)) = creations (f, w) + 1"
proof -
  define f1 where "f1 = f\<lparr>client := c', conversation_created := True\<rparr>"
  obtain f2 w2 where s: "step server loads c (f, w) = (f2, w2)"
    by (cases "step server loads c (f, w)")
  from assms have e: "ensure_conversation server (f, w) = (None, f1, w')"
    unfolding f1_def by (rule ensure_conversation_succeeds)
  from step_after_ensure [OF e, of loads c] s
  have f: "f2 = f1" and o: "only_chat_queries (client f1) w' w2"
    by simp_all
  have cf: "client f1 = c'" and cc: "conversation_created f1"
    by (simp_all add: f1_def)
  from assms(2) have u: "api_url c' = api_url (client f)"
    by (rule create_conversation_api_url)
  from assms(2) have r: "requests w' = requests w @
      [create_conversation_request (client f) (llm_user_id f) (conversation_inputs f)]"
    by (rule create_conversation_requests)
  from creations_only_chat_queries [OF o, of f1]
  have "creations (f1, w2) = creations (f1, w')" by simp
  also from creations_after_create [OF r, of f1 f] cf u
  have "creations (f1, w') = creations (f, w) + 1" by simp
  finally have "creations (f1, w2) = creations (f, w) + 1" .
  with f cc s show ?thesis by simp
qed

text \<open>
  C4. On an instance whose flag is false and whose first creation of the conversation
  returns, the flag is true after every call of any sequence of \<^verbatim>\<open>chat\<close> and
  \<^verbatim>\<open>chat_stream\<close> calls, and after every call exactly one request to
  \<^verbatim>\<open>create_conversation\<close> more than before has been sent: it is sent in the first call
  and never again. From any state with the flag true, the flag stays true and no such
  request is sent, whatever the service answers.
\<close>

theorem C4_conversation_created_once:
  assumes "\<not> conversation_created f"
    and "create_conversation server (llm_user_id f) (conversation_inputs f) (client f, w) =
           (Inr body, c', w')"
  shows "map (\<lambda>s. conversation_created (fst s)) (run server loads calls (f, w)) =
           replicate (length calls) True \<and>
         map creations (run server loads calls (f, w)) =
           replicate (length calls) (creations (f, w) + 1) \<and>
         (conversation_created g \<longrightarrow>
            map (\<lambda>s. conversation_created (fst s)) (run server loads calls (g, v)) =
              replicate (length calls) True \<and>
            map creations (run server loads calls (g, v)) =
              replicate (length calls) (creations (g, v)))"
proof (intro conjI impI)
  show "map (\<lambda>s. conversation_created (fst s)) (run server loads calls (f, w)) =
           replicate (length calls) True"
  proof (cases calls)
    case Nil
    then show ?thesis by simp
  next
    case (Cons c cs)
    obtain f1 w1 where s: "step server loads c (f, w) = (f1, w1)"
      by (cases "step server loads c (f, w)")
    with step_first [OF assms, of loads c] have c1: "conversation_created f1" by simp
    from run_created [OF c1, of server loads cs w1] s c1 Cons show ?thesis by simp
  qed
  show "map creations (run server loads calls (f, w)) =
           replicate (length calls) (creations (f, w) + 1)"
  proof (cases calls)
    case Nil
    then show ?thesis by simp
  next
    case (Cons c cs)
    obtain f1 w1 where s: "step server loads c (f, w) = (f1, w1)"
      by (cases "step server loads c (f, w)")
    with step_first [OF assms, of loads c]
    have c1: "conversation_created f1" and n1: "creations (f1, w1) = creations (f, w) + 1"
      by simp_all
    from run_created [OF c1, of server loads cs w1] s n1 Cons show ?thesis by simp
  qed
next
  assume g: "conversation_created g"
  from run_created [OF g, of server loads calls v]
  show "map (\<lambda>s. conversation_created (fst s)) (run server loads calls (g, v)) =
          replicate (length calls) True"
    and "map creations (run server loads calls (g, v)) =
          replicate (length calls) (creations (g, v))"
    by simp_all
qed

theorem C4_conversation_created_once_witness:
  "\<not> conversation_created (fst started) \<and>
   map (\<lambda>s. conversation_created (fst s))
     (run good_server sample_loads
        [Chat (lit ''q'') JNull True, ChatStream (lit ''q'') JNull 1, Chat (lit ''q'') JNull False]
        started) = [True, True, True] \<and>
   map creations
     (run good_server sample_loads
        [Chat (lit ''q'') JNull True, ChatStream (lit ''q'') JNull 1, Chat (lit ''q'') JNull False]
        started) = [1, 1, 1] \<and>
   conversation_created (fst ready) \<and>
   map (\<lambda>s. conversation_created (fst s))
     (run good_server sample_loads
        [Chat (lit ''q'') JNull True, ChatStream (lit ''q'') JNull 1, Chat (lit ''q'') JNull False]
        ready) = [True, True, True] \<and>
   map creations
     (run good_server sample_loads
        [Chat (lit ''q'') JNull True, ChatStream (lit ''q'') JNull 1, Chat (lit ''q'') JNull False]
        ready) = [1, 1, 1]"
proof -
  have h1: "\<not> conversation_created (init JNull JNull)"
    by (simp add: init_def)
  have h2: "create_conversation good_server (llm_user_id (init JNull JNull))
      (conversation_inputs (init JNull JNull)) (client (init JNull JNull), fresh_world) =
      (Inr (JObj [(lit ''Conversation'', JObj [(lit ''AppConversationID'', JStr (lit ''c1''))])]),
       client (fst ready), snd ready)"
    by (simp add: sample_eval)
  have h3: "conversation_created (fst ready)"
    by (simp add: ready_def)
  have n0: "creations (init JNull JNull, fresh_world) = 0"
    by (simp add: creations_def fresh_world_def)
  have n1: "creations (fst ready, snd ready) = 1"
    by (simp add: sample_eval)
  from C4_conversation_created_once [OF h1 h2, where loads = sample_loads and g = "fst ready" and v = "snd ready"
      and calls = "[Chat (lit ''q'') JNull True, ChatStream (lit ''q'') JNull 1,
                    Chat (lit ''q'') JNull False]"] h1 h3 n0 n1
  show ?thesis
    by (simp add: started_def numeral_3_eq_3)
qed

section \<open>The results of \<^verbatim>\<open>chat\<close> and \<^verbatim>\<open>chat_stream\<close>\<close>

text \<open>
  C6. Structured output is asked for, the conversation is ready, the blocking call
  returns an object whose answer is a text, and the text is no JSON. Then \<^verbatim>\<open>chat\<close>
  returns a response with that text as content and no parsed value, and raises nothing.
\<close>

theorem C6_unparsable_answer:
  assumes "ensure_conversation server fw = (None, f, w)"
    and "chat_query_blocking server prompt query_extends (client f, w) = (Inr (JObj d), w')"
    and "dict_get_default d ''answer'' (JStr []) = JStr answer_text"
    and "loads answer_text = None"
  shows "chat server loads prompt query_extends True fw =
           (Inr \<lparr>output' = \<lparr>content = JStr answer_text\<rparr>, parsed_response = JNull\<rparr>, f, w')"
  using assms by (simp add: chat_def json_loads_def)

theorem C6_unparsable_answer_witness:
  "ensure_conversation good_server started = (None, ready) \<and>
   sample_loads (lit ''hi there'') = None \<and>
   fst (chat good_server sample_loads (lit ''q'') JNull True started) =
     Inr \<lparr>output' = \<lparr>content = JStr (lit ''hi there'')\<rparr>, parsed_response = JNull\<rparr>"
proof -
  have h1: "ensure_conversation good_server started = (None, fst ready, snd ready)"
    by (simp add: sample_eval)
  obtain w' where h2: "chat_query_blocking good_server (lit ''q'') JNull
      (client (fst ready), snd ready) =
      (Inr (JObj [(lit ''answer'', JStr (lit ''hi there''))]), w')"
    by (simp add: sample_eval)
  have h3: "dict_get_default [(lit ''answer'', JStr (lit ''hi there''))] ''answer'' (JStr []) =
      JStr (lit ''hi there'')"
    by (simp add: dict_get_default_def)
  have h4: "sample_loads (lit ''hi there'') = None"
    by (simp add: sample_loads_def lit_def)
  from C6_unparsable_answer [where loads = sample_loads and answer_text = "lit ''hi there''", OF h1 h2 h3 h4] h1 h4
  show ?thesis
    by simp
qed

lemma for_data_yields:
  "fst (fst (for_data acts w)) =
     map answer_field (filter is_fragment (takeWhile is_dict (yielded acts)))"
proof (induction acts w rule: for_data.induct)
  case (4 data acts w)
  show ?case
  proof (cases data)
    case (JObj d)
    with 4 show ?thesis
      by (auto simp: Let_def is_dict_def is_fragment_def event_field_def answer_field_def
          split: prod.splits)
  qed (simp_all add: is_dict_def)
qed simp_all

text \<open>
  C5. The conversation is ready and the events of the streaming call are dicts, as its
  return type says. Then \<^verbatim>\<open>chat_stream\<close> yields the answers of the fragments among
  them, in order, and nothing else: an event of another kind, or a message event with
  an empty or absent answer, is no fragment.
\<close>

theorem C5_chat_stream_filter:
  assumes "ensure_conversation server fw = (None, f, w)"
    and "chat_query_streaming server loads prompt query_extends None chunk_size False
           (client f, w) = ((acts, r), w')"
    and "list_all is_dict (yielded acts)"
  shows "fst (fst (chat_stream server loads prompt query_extends chunk_size fw)) =
           map answer_field (filter is_fragment (yielded acts))"
proof -
  from assms(3) have "takeWhile is_dict (yielded acts) = yielded acts"
    by (simp add: list_all_iff)
  with for_data_yields [of acts w']
  have "fst (fst (for_data acts w')) = map answer_field (filter is_fragment (yielded acts))"
    by simp
  with assms(1,2) show ?thesis
    by (auto simp: chat_stream_def stream_answers_def split: prod.splits option.splits)
qed

theorem C5_chat_stream_filter_witness:
  \<open>ensure_conversation good_server started = (None, ready) \<and>
   list_all is_dict
     [hi_event,
      JObj [(lit ''event'', JStr (lit ''message'')), (lit ''answer'', JStr [])],
      JObj [(lit ''event'', JStr (lit ''message_end''))]] \<and>
   fst (fst (chat_stream good_server sample_loads (lit ''q'') JNull 1 started)) =
     [JStr (lit ''hi'')]\<close>
proof -
  have h1: "ensure_conversation good_server started = (None, fst ready, snd ready)"
    by (simp add: sample_eval)
  obtain w' where h2: "chat_query_streaming good_server sample_loads (lit ''q'') JNull None 1 False
      (client (fst ready), snd ready) =
      (([Yield hi_event,
         Yield (JObj [(lit ''event'', JStr (lit ''message'')), (lit ''answer'', JStr [])]),
         Yield (JObj [(lit ''event'', JStr (lit ''message_end''))])], None), w')"
    by (simp add: sample_eval)
  have h3: "list_all is_dict (yielded
      [Yield hi_event,
       Yield (JObj [(lit ''event'', JStr (lit ''message'')), (lit ''answer'', JStr [])]),
       Yield (JObj [(lit ''event'', JStr (lit ''message_end''))])])"
    by (simp add: is_dict_def hi_event_def)
  from C5_chat_stream_filter [OF h1 h2 h3] h1 h3 show ?thesis
    by (simp add: is_fragment_def event_field_def answer_field_def hi_event_def dict_get_def
        dict_get_default_def lit_def)
qed

section \<open>The asynchronous variants\<close>

text \<open>
  C8, as the code has it. \<^verbatim>\<open>achat\<close> returns what \<^verbatim>\<open>chat\<close> returns. When \<^verbatim>\<open>chat_stream\<close>
  ends without an exception, \<^verbatim>\<open>achat_stream\<close> yields the same fragments in the same
  order and leaves the same state; when \<^verbatim>\<open>chat_stream\<close> ends with an exception,
  \<^verbatim>\<open>achat_stream\<close> ends with the same exception and the same state, and has yielded
  nothing.
\<close>

theorem C8_async_variants:
  "achat server loads prompt query_extends want_json fw =
     chat server loads prompt query_extends want_json fw \<and>
   (snd (fst (chat_stream server loads prompt query_extends chunk_size fw)) = None \<longrightarrow>
      achat_stream server loads prompt query_extends chunk_size fw =
      chat_stream server loads prompt query_extends chunk_size fw) \<and>
   (\<forall>e. snd (fst (chat_stream server loads prompt query_extends chunk_size fw)) = Some e \<longrightarrow>
      achat_stream server loads prompt query_extends chunk_size fw =
      (([], Some e), snd (chat_stream server loads prompt query_extends chunk_size fw)))"
  by (auto simp: achat_def achat_stream_def chat_stream_def stream_generator_def
      split: prod.splits option.splits)

theorem C8_async_variants_witness:
  "snd (fst (chat_stream good_server sample_loads (lit ''q'') JNull 1 started)) = None \<and>
   achat_stream good_server sample_loads (lit ''q'') JNull 1 started =
     chat_stream good_server sample_loads (lit ''q'') JNull 1 started \<and>
   snd (fst (chat_stream dropping_server sample_loads (lit ''q'') JNull 1 started)) =
     Some RequestException \<and>
   fst (achat_stream dropping_server sample_loads (lit ''q'') JNull 1 started) =
     ([], Some RequestException)"
proof -
  have g: "snd (fst (chat_stream good_server sample_loads (lit ''q'') JNull 1 started)) = None"
    by (simp add: sample_eval)
  have d: "snd (fst (chat_stream dropping_server sample_loads (lit ''q'') JNull 1 started)) =
      Some RequestException"
    by (simp add: sample_eval)
  from C8_async_variants [of good_server sample_loads "lit ''q''" JNull False started 1]
    C8_async_variants [of dropping_server sample_loads "lit ''q''" JNull False started 1] g d
  show ?thesis by simp
qed

text \<open>
  The claim as stated, the same fragments for all arguments, fails: when the connection
  breaks after the first event, \<^verbatim>\<open>chat_stream\<close> has yielded the first answer before the
  exception, and \<^verbatim>\<open>achat_stream\<close>, whose list is built in the executor before anything
  is yielded, has yielded nothing.
\<close>

theorem C8_async_stream_yields_nothing:
  "fst (chat_stream dropping_server sample_loads (lit ''q'') JNull 1 started) =
     ([JStr (lit ''hi'')], Some RequestException) \<and>
   fst (achat_stream dropping_server sample_loads (lit ''q'') JNull 1 started) =
     ([], Some RequestException)"
  by (simp add: sample_eval)

end
